theory Spec2Isabelle
  imports Complex_Main "HOL-Library.Multiset"
begin

section \<open>Urban-cover statistics of a Sentinel-2 tile: the Lambda handler and its helpers\<close>

text \<open>
  The development follows \<^verbatim>\<open>src/lambda/osgeo_utils.py\<close>, \<^verbatim>\<open>src/lambda/file_utils.py\<close> and
  \<^verbatim>\<open>src/lambda/lambda_function.py\<close>. Python floats (ground coordinates, resolutions, the
  cover percentage) are modelled by exact rationals, Python's unbounded integers by
  \<^typ>\<open>int\<close> and \<^typ>\<open>nat\<close>, and every exception the code can raise is a value of
  \<open>error\<close>, returned as \<open>Inl\<close>.
\<close>

subsection \<open>Errors and Python arithmetic\<close>

datatype error =
    ZeroDivisionError
  | IndexError
  | KeyError
  | ValueError
  | JSONDecodeError
  | RuntimeError
  | ClientError

text \<open>
  Python 3's \<^verbatim>\<open>round(x)\<close> on a float returns an integer and rounds halves to the even
  neighbour.
\<close>

definition py_round :: "rat \<Rightarrow> int" where
  "py_round x =
     (let f = \<lfloor>x\<rfloor>; d = x - of_int f
      in if d < 1 / 2 then f
         else if 1 / 2 < d then f + 1
         else if even f then f else f + 1)"

text \<open>\<^verbatim>\<open>round(x, n)\<close>: rounding to \<open>n\<close> decimals, again with halves to even.\<close>

definition py_round_digits :: "rat \<Rightarrow> nat \<Rightarrow> rat" where
  "py_round_digits x n = of_int (py_round (x * 10 ^ n)) / 10 ^ n"

text \<open>\<^verbatim>\<open>int(x)\<close> on a float truncates towards zero.\<close>

definition py_int :: "rat \<Rightarrow> int" where
  "py_int x = (if 0 \<le> x then \<lfloor>x\<rfloor> else \<lceil>x\<rceil>)"

subsection \<open>Raster datasets (\<^verbatim>\<open>osgeo_utils.py\<close>, class GdalCommonUtils)\<close>

text \<open>
  A GDAL dataset as the code reads it: the six coefficients of \<^verbatim>\<open>GetGeoTransform()\<close>
  in GDAL's order \<open>(c, a, b, f, d, e)\<close>, the raster size, the declared nodata value of
  band 1 and the pixel values of band 1 by row and column.
\<close>

type_synonym geotransform = "rat \<times> rat \<times> rat \<times> rat \<times> rat \<times> rat"

type_synonym extent = "rat \<times> rat \<times> rat \<times> rat"

record dataset =
  GeoTransform :: geotransform
  RasterXSize :: nat
  RasterYSize :: nat
  NoDataValue :: "rat option"
  band1 :: "nat \<Rightarrow> nat \<Rightarrow> int"

definition get_envelope :: "dataset \<Rightarrow> extent" where
  "get_envelope ds =
     (case GeoTransform ds of (c, a, b, f, d, e) \<Rightarrow>
        let t = 0;
            col = 0; row = 0;
            env_a = (a * (col + t) + b * (row + t) + c, d * (col + t) + e * (row + t) + f);
            col = of_nat (RasterXSize ds); row = of_nat (RasterYSize ds);
            env_b = (a * (col + t) + b * (row + t) + c, d * (col + t) + e * (row + t) + f);
            min_x = min (fst env_a) (fst env_b);
            min_y = min (snd env_a) (snd env_b);
            max_x = max (fst env_a) (fst env_b);
            max_y = max (snd env_a) (snd env_b)
        in (min_x, min_y, max_x, max_y))"

text \<open>
  \<^verbatim>\<open>get_reading_window\<close> divides by the raster size and by the two resolutions; a zero
  divisor raises \<^verbatim>\<open>ZeroDivisionError\<close> (float division in Python).
\<close>

definition get_reading_window :: "dataset \<Rightarrow> extent \<Rightarrow> error + (int \<times> int \<times> int \<times> int)" where
  "get_reading_window ds bbox =
     (case get_envelope ds of (data_ul_x, data_lr_y, data_lr_x, data_ul_y) \<Rightarrow>
      case bbox of (ul_x, lr_y, lr_x, ul_y) \<Rightarrow>
        let w = RasterXSize ds; h = RasterYSize ds
        in if w = 0 \<or> h = 0 then Inl ZeroDivisionError
           else
             let res_x = \<bar>data_ul_x - data_lr_x\<bar> / of_nat w;
                 res_y = \<bar>data_ul_y - data_lr_y\<bar> / of_nat h
             in if res_y = 0 \<or> res_x = 0 then Inl ZeroDivisionError
                else
                  let top = py_round ((data_ul_y - ul_y) / res_y);
                      left = py_round ((ul_x - data_ul_x) / res_x);
                      bottom = py_round ((data_ul_y - lr_y) / res_y);
                      right = py_round ((lr_x - data_ul_x) / res_x)
                  in Inr (left, top, right, bottom))"

subsection \<open>Geometry (the OGR engine, and class OgrCommonUtils)\<close>

text \<open>
  The OGR geometry engine (\<^verbatim>\<open>Intersects\<close>, \<^verbatim>\<open>Intersection\<close>, \<^verbatim>\<open>Difference\<close>,
  \<^verbatim>\<open>GetEnvelope\<close>) is a native library outside the repository; section 3 of the spec gives
  its operations and section 4.1 their set algebra, and they are modelled from there. Every geometry the
  reconciliation handles is built from bounding-box polygons by intersection and
  difference, so a geometry is a finite list of closed axis-aligned boxes (its parts);
  the empty list is the empty geometry. \<open>Box x0 y0 x1 y1\<close> is the closed rectangle
  \<open>[x0, x1] \<times> [y0, y1]\<close>; it has no point when \<open>x1 < x0\<close> or \<open>y1 < y0\<close>.
\<close>

type_synonym point = "rat \<times> rat"

datatype box = Box rat rat rat rat

type_synonym geometry = "box list"

text \<open>The points of a box and of a geometry.\<close>

fun box_points :: "box \<Rightarrow> point set" where
  "box_points (Box x0 y0 x1 y1) = {(x, y). x0 \<le> x \<and> x \<le> x1 \<and> y0 \<le> y \<and> y \<le> y1}"

definition points :: "geometry \<Rightarrow> point set" where
  "points g = \<Union> (box_points ` set g)"

text \<open>
  \<^verbatim>\<open>create_geometry_from_bbox\<close> adds five points to a linear ring and wraps the ring in a
  polygon. The polygon a closed ring of a bounding box encloses is the box spanned by its
  vertices, whichever way the ring runs.
\<close>

definition ring_polygon :: "point list \<Rightarrow> geometry" where
  "ring_polygon ring =
     (case ring of
        [] \<Rightarrow> []
      | p # ps \<Rightarrow>
          [Box (fold min (map fst ps) (fst p)) (fold min (map snd ps) (snd p))
               (fold max (map fst ps) (fst p)) (fold max (map snd ps) (snd p))])"

definition create_geometry_from_bbox :: "rat \<Rightarrow> rat \<Rightarrow> rat \<Rightarrow> rat \<Rightarrow> geometry" where
  "create_geometry_from_bbox x_min y_min x_max y_max =
     (let ring = [(x_min, y_min), (x_max, y_min), (x_max, y_max), (x_min, y_max), (x_min, y_min)]
      in ring_polygon ring)"

text \<open>
  Modelled from the spec: \<^verbatim>\<open>Intersects\<close> and \<^verbatim>\<open>Intersection\<close> of the geometry engine (section 3:
  \<open>intersects(other) \<rightarrow> bool\<close>, \<open>intersection(other) \<rightarrow> Geometry|empty\<close>). Two
  closed boxes intersect when they share a point, touching boundaries included; two
  geometries intersect when two of their parts do, and their intersection collects the
  intersections of the parts that meet.
\<close>

fun boxes_meet :: "box \<Rightarrow> box \<Rightarrow> bool" where
  "boxes_meet (Box x0 y0 x1 y1) (Box a0 b0 a1 b1) =
     (max x0 a0 \<le> min x1 a1 \<and> max y0 b0 \<le> min y1 b1)"

fun box_inter :: "box \<Rightarrow> box \<Rightarrow> box" where
  "box_inter (Box x0 y0 x1 y1) (Box a0 b0 a1 b1) =
     Box (max x0 a0) (max y0 b0) (min x1 a1) (min y1 b1)"

definition Intersects :: "geometry \<Rightarrow> geometry \<Rightarrow> bool" where
  "Intersects g h = list_ex (\<lambda>r. list_ex (boxes_meet r) h) g"

definition Intersection :: "geometry \<Rightarrow> geometry \<Rightarrow> geometry" where
  "Intersection g h = concat (map (\<lambda>r. map (box_inter r) (filter (boxes_meet r) h)) g)"

text \<open>
  Modelled from the spec: \<^verbatim>\<open>Difference\<close> of the geometry engine (section 3:
  \<open>difference(other) \<rightarrow> Geometry\<close>; section 4.1: an empty result is no error). A box
  minus a box: the strip left of the subtrahend, the strip right of it, and, over the
  columns they share, the part below and the part above. A strip is present when the
  minuend has a point strictly on that side. A geometry minus a geometry subtracts every
  part of the second from every part of the first.
\<close>

fun box_minus :: "box \<Rightarrow> box \<Rightarrow> box list" where
  "box_minus (Box x0 y0 x1 y1) (Box a0 b0 a1 b1) =
     (if x1 < x0 \<or> y1 < y0 then []
      else if a1 < a0 \<or> b1 < b0 then [Box x0 y0 x1 y1]
      else
        (if x0 < a0 then [Box x0 y0 (min x1 a0) y1] else []) @
        (if a1 < x1 then [Box (max x0 a1) y0 x1 y1] else []) @
        (if max x0 a0 \<le> min x1 a1 \<and> y0 < b0
         then [Box (max x0 a0) y0 (min x1 a1) (min y1 b0)] else []) @
        (if max x0 a0 \<le> min x1 a1 \<and> b1 < y1
         then [Box (max x0 a0) (max y0 b1) (min x1 a1) y1] else []))"

definition Difference :: "geometry \<Rightarrow> geometry \<Rightarrow> geometry" where
  "Difference g h = fold (\<lambda>s acc. concat (map (\<lambda>r. box_minus r s) acc)) h g"

text \<open>
  Modelled from the spec: \<^verbatim>\<open>GetEnvelope\<close> of the geometry engine (section 3:
  \<open>envelope()\<close>). OGR returns \<open>(minX, maxX, minY, maxY)\<close>, in that order, as line 165
  unpacks it, and four zeros for an empty geometry.
\<close>

fun box_x0 :: "box \<Rightarrow> rat" where "box_x0 (Box x0 y0 x1 y1) = x0"
fun box_y0 :: "box \<Rightarrow> rat" where "box_y0 (Box x0 y0 x1 y1) = y0"
fun box_x1 :: "box \<Rightarrow> rat" where "box_x1 (Box x0 y0 x1 y1) = x1"
fun box_y1 :: "box \<Rightarrow> rat" where "box_y1 (Box x0 y0 x1 y1) = y1"

definition GetEnvelope :: "geometry \<Rightarrow> rat \<times> rat \<times> rat \<times> rat" where
  "GetEnvelope g =
     (case g of
        [] \<Rightarrow> (0, 0, 0, 0)
      | r # rs \<Rightarrow>
          (fold min (map box_x0 rs) (box_x0 r), fold max (map box_x1 rs) (box_x1 r),
           fold min (map box_y0 rs) (box_y0 r), fold max (map box_y1 rs) (box_y1 r)))"

text \<open>A box that lies within another one.\<close>

fun box_within :: "box \<Rightarrow> box \<Rightarrow> bool" where
  "box_within (Box x0 y0 x1 y1) (Box a0 b0 a1 b1) =
     (a0 \<le> x0 \<and> x1 \<le> a1 \<and> b0 \<le> y0 \<and> y1 \<le> b1)"

text \<open>
  Modelled from the spec: the total area of a geometry (section 8, property 2), the sum of
  the areas of its parts; the parts of a difference overlap in boundary segments at most.
\<close>

fun box_area :: "box \<Rightarrow> rat" where
  "box_area (Box x0 y0 x1 y1) = max 0 (x1 - x0) * max 0 (y1 - y0)"

definition GetArea :: "geometry \<Rightarrow> rat" where
  "GetArea g = sum_list (map box_area g)"

text \<open>
  For the area that a sequence of subtractions leaves: the length of an interval, the
  area of a geometry inside a window, the box that a stored extent spans, and the pair of
  the total area and the areas inside every window, with the effect of subtracting a box
  on that pair.
\<close>

definition len :: "rat \<Rightarrow> rat \<Rightarrow> rat" where
  "len lo hi = max 0 (hi - lo)"

definition area_in :: "box \<Rightarrow> geometry \<Rightarrow> rat" where
  "area_in c g = sum_list (map (\<lambda>r. box_area (box_inter r c)) g)"

definition area_profile :: "geometry \<Rightarrow> rat \<times> (box \<Rightarrow> rat)" where
  "area_profile g = (GetArea g, (\<lambda>c. area_in c g))"

definition profile_minus :: "box \<Rightarrow> rat \<times> (box \<Rightarrow> rat) \<Rightarrow> rat \<times> (box \<Rightarrow> rat)" where
  "profile_minus s P = (fst P - snd P s, (\<lambda>c. snd P c - snd P (box_inter c s)))"

fun box_valid :: "box \<Rightarrow> bool" where
  "box_valid (Box x0 y0 x1 y1) = (x0 \<le> x1 \<and> y0 \<le> y1)"

definition extent_box :: "rat \<times> rat \<times> rat \<times> rat \<Rightarrow> box" where
  "extent_box ext =
     (case ext of (e0, e1, e2, e3) \<Rightarrow> Box (min e0 e2) (min e1 e3) (max e0 e2) (max e1 e3))"

text \<open>
  Two boxes overlap when they share more than boundary: their common box has a positive
  area. The parts of a geometry lie apart when no two of them overlap; the sum of their
  areas is then the area of the region they cover.
\<close>

definition boxes_overlap :: "box \<Rightarrow> box \<Rightarrow> bool" where
  "boxes_overlap r s = (0 < box_area (box_inter r s))"

definition parts_apart :: "geometry \<Rightarrow> bool" where
  "parts_apart g = sorted_wrt (\<lambda>r s. \<not> boxes_overlap r s) g"

subsection \<open>S3 paths and the object store (\<^verbatim>\<open>file_utils.py\<close>)\<close>

text \<open>\<^verbatim>\<open>s.split('//')\<close> and \<^verbatim>\<open>s.split(c)\<close> for one character, \<^verbatim>\<open>sep.join(xs)\<close>.\<close>

fun py_split_dslash :: "string \<Rightarrow> string list" where
  "py_split_dslash (c1 # c2 # cs) =
     (if c1 = CHR ''/'' \<and> c2 = CHR ''/'' then [] # py_split_dslash cs
      else (case py_split_dslash (c2 # cs) of
              w # ws \<Rightarrow> (c1 # w) # ws
            | [] \<Rightarrow> [[c1]]))"
| "py_split_dslash cs = [cs]"

fun py_split_char :: "char \<Rightarrow> string \<Rightarrow> string list" where
  "py_split_char sep [] = [[]]"
| "py_split_char sep (c # cs) =
     (if c = sep then [] # py_split_char sep cs
      else (case py_split_char sep cs of
              w # ws \<Rightarrow> (c # w) # ws
            | [] \<Rightarrow> [[c]]))"

fun py_join :: "string \<Rightarrow> string list \<Rightarrow> string" where
  "py_join sep [] = []"
| "py_join sep [w] = w"
| "py_join sep (w # ws) = w @ sep @ py_join sep ws"

definition parse_s3_path :: "string \<Rightarrow> error + (string \<times> string)" where
  "parse_s3_path s3_path =
     (let s3_path = map (\<lambda>c. if c = CHR 0x5C then CHR ''/'' else c) s3_path
      in case py_split_dslash s3_path of
           _ # rest # _ \<Rightarrow>
             let bucket_name = hd (py_split_char CHR ''/'' rest);
                 prefix_path = py_join ''/'' (tl (py_split_char CHR ''/'' rest))
             in Inr (bucket_name, prefix_path)
         | _ \<Rightarrow> Inl IndexError)"

text \<open>\<^verbatim>\<open>os.path.join(a, b)\<close> on POSIX.\<close>

definition os_path_join :: "string \<Rightarrow> string \<Rightarrow> string" where
  "os_path_join a b =
     (if b \<noteq> [] \<and> hd b = CHR ''/'' then b
      else if a = [] \<or> last a = CHR ''/'' then a @ b
      else a @ ''/'' @ b)"

text \<open>
  The message of the notification, as far as the handler uses it: the item identifier,
  the footprint geometry (its outer ring, in geographic coordinates) and the address of
  the SCL asset. The stored result document is the message with the \<^verbatim>\<open>land_use\<close> object
  added.
\<close>

type_synonym footprint = "point list"

record message =
  msg_id :: string
  msg_geometry :: footprint
  msg_SCL_href :: string

record land_use =
  json_urban_pixels :: nat
  json_valid_urban_pixels :: nat
  json_urban_cover :: rat
  json_aoi_extent :: "rat list"

record item_doc =
  doc_message :: message
  doc_land_use :: "land_use option"

datatype s3_object = NotJson | JsonDoc item_doc

text \<open>
  The S3 client: the objects by bucket and key, and the \<^verbatim>\<open>get_object\<close> calls made so far
  (latest first).
\<close>

record s3_client =
  objects :: "string \<times> string \<Rightarrow> s3_object option"
  get_object_calls :: "(string \<times> string) list"

text \<open>
  \<^verbatim>\<open>exist_s3_path\<close> lists at most one object whose key starts with the parsed key and
  compares its key with it. S3 lists keys in ascending order and a key precedes all its
  proper extensions, so the listing yields the key itself exactly when an object with that
  key is stored.
\<close>

definition exist_s3_path :: "s3_client \<Rightarrow> string \<Rightarrow> error + bool" where
  "exist_s3_path s3 s3_path =
     (case parse_s3_path s3_path of
        Inl e \<Rightarrow> Inl e
      | Inr (bucket_name, prefix_path) \<Rightarrow> Inr (objects s3 (bucket_name, prefix_path) \<noteq> None))"

definition get_object :: "s3_client \<Rightarrow> string \<Rightarrow> string \<Rightarrow> error + (s3_object \<times> s3_client)" where
  "get_object s3 bucket_name key =
     (case objects s3 (bucket_name, key) of
        None \<Rightarrow> Inl ClientError
      | Some obj \<Rightarrow>
          Inr (obj, s3\<lparr>get_object_calls := (bucket_name, key) # get_object_calls s3\<rparr>))"

definition upload_file :: "s3_client \<Rightarrow> item_doc \<Rightarrow> string \<Rightarrow> string \<Rightarrow> s3_client" where
  "upload_file s3 doc bucket_name key =
     s3\<lparr>objects := (objects s3)((bucket_name, key) \<mapsto> JsonDoc doc)\<rparr>"

definition json_loads :: "s3_object \<Rightarrow> error + item_doc" where
  "json_loads obj = (case obj of NotJson \<Rightarrow> Inl JSONDecodeError | JsonDoc d \<Rightarrow> Inr d)"

subsection \<open>NumPy arrays\<close>

text \<open>A two-dimensional array: its shape and its cells by row and column.\<close>

record 'a ndarray =
  nrows :: nat
  ncols :: nat
  cell :: "nat \<Rightarrow> nat \<Rightarrow> 'a"

definition zeros_like_bool :: "'a ndarray \<Rightarrow> bool ndarray" where
  "zeros_like_bool r = \<lparr>nrows = nrows r, ncols = ncols r, cell = (\<lambda>i j. False)\<rparr>"

definition eq_scalar :: "int ndarray \<Rightarrow> int \<Rightarrow> bool ndarray" where
  "eq_scalar r code = \<lparr>nrows = nrows r, ncols = ncols r, cell = (\<lambda>i j. cell r i j = code)\<rparr>"

definition gt_scalar :: "int ndarray \<Rightarrow> int \<Rightarrow> bool ndarray" where
  "gt_scalar r v = \<lparr>nrows = nrows r, ncols = ncols r, cell = (\<lambda>i j. v < cell r i j)\<rparr>"

text \<open>\<^verbatim>\<open>np.logical_or\<close> of two arrays of one shape (a mask and a comparison of its raster).\<close>

definition logical_or :: "bool ndarray \<Rightarrow> bool ndarray \<Rightarrow> bool ndarray" where
  "logical_or a b = \<lparr>nrows = nrows a, ncols = ncols a, cell = (\<lambda>i j. cell a i j \<or> cell b i j)\<rparr>"

definition astype_int :: "bool ndarray \<Rightarrow> int ndarray" where
  "astype_int m = \<lparr>nrows = nrows m, ncols = ncols m, cell = (\<lambda>i j. if cell m i j then 1 else 0)\<rparr>"

text \<open>
  \<^verbatim>\<open>a & b\<close> broadcasts: along each axis the lengths are equal or one of them is 1, and
  an axis of length 1 is repeated; otherwise NumPy raises \<^verbatim>\<open>ValueError\<close>.
\<close>

definition broadcast_axis :: "nat \<Rightarrow> nat \<Rightarrow> nat option" where
  "broadcast_axis m n = (if m = n then Some m else if m = 1 then Some n else if n = 1 then Some m else None)"

definition logical_and :: "bool ndarray \<Rightarrow> bool ndarray \<Rightarrow> error + bool ndarray" where
  "logical_and a b =
     (case (broadcast_axis (nrows a) (nrows b), broadcast_axis (ncols a) (ncols b)) of
        (Some r, Some c) \<Rightarrow>
          Inr \<lparr>nrows = r, ncols = c,
               cell = (\<lambda>i j. cell a (if nrows a = 1 then 0 else i) (if ncols a = 1 then 0 else j) \<and>
                              cell b (if nrows b = 1 then 0 else i) (if ncols b = 1 then 0 else j))\<rparr>
      | _ \<Rightarrow> Inl ValueError)"

definition logical_not :: "bool ndarray \<Rightarrow> bool ndarray" where
  "logical_not m = \<lparr>nrows = nrows m, ncols = ncols m, cell = (\<lambda>i j. \<not> cell m i j)\<rparr>"

text \<open>
  \<^verbatim>\<open>r[mask] = v\<close>: a boolean index has the shape of the array it indexes, or NumPy raises
  \<^verbatim>\<open>IndexError\<close>.
\<close>

definition assign_masked :: "int ndarray \<Rightarrow> bool ndarray \<Rightarrow> int \<Rightarrow> error + int ndarray" where
  "assign_masked r index v =
     (if nrows index = nrows r \<and> ncols index = ncols r
      then Inr \<lparr>nrows = nrows r, ncols = ncols r, cell = (\<lambda>i j. if cell index i j then v else cell r i j)\<rparr>
      else Inl IndexError)"

definition count_nonzero :: "bool ndarray \<Rightarrow> nat" where
  "count_nonzero m =
     length (filter (\<lambda>(i, j). cell m i j) (List.product [0..<nrows m] [0..<ncols m]))"

text \<open>An array given by its rows, for concrete windows.\<close>

definition array_of_rows :: "int list list \<Rightarrow> int ndarray" where
  "array_of_rows rows =
     \<lparr>nrows = length rows, ncols = (case rows of [] \<Rightarrow> 0 | r # _ \<Rightarrow> length r),
      cell = (\<lambda>i j. rows ! i ! j)\<rparr>"

subsection \<open>Class masks (\<^verbatim>\<open>lambda_function.py\<close>, lines 50 to 65)\<close>

definition get_valid_sen2cor_cloud_mask :: "int ndarray \<Rightarrow> int list \<Rightarrow> bool ndarray" where
  "get_valid_sen2cor_cloud_mask cm_raster valid_classes =
     fold (\<lambda>code scl_mask. logical_or scl_mask (eq_scalar cm_raster code))
       valid_classes (zeros_like_bool cm_raster)"

definition get_valid_sigpac_urban_mask :: "int ndarray \<Rightarrow> int list \<Rightarrow> bool ndarray" where
  "get_valid_sigpac_urban_mask lu_raster valid_classes =
     fold (\<lambda>code lu_mask. logical_or lu_mask (eq_scalar lu_raster code))
       valid_classes (zeros_like_bool lu_raster)"

text \<open>The default arguments of the two functions.\<close>

definition sen2cor_valid_classes :: "int list" where
  "sen2cor_valid_classes = [2, 4, 5, 6, 7, 11]"

definition sigpac_valid_classes :: "int list" where
  "sigpac_valid_classes = [0, 5]"

subsection \<open>The handler's surroundings\<close>

text \<open>
  The environment variables the handler reads, and the native services it calls:
  \<^verbatim>\<open>gdal.Open\<close> (\<open>None\<close> where GDAL cannot open the path and, with
  \<^verbatim>\<open>gdal.UseExceptions()\<close>, raises), the coordinate transformation from EPSG:4326 to
  EPSG:32630 applied to the footprint, and \<^verbatim>\<open>gdal.RasterizeLayer\<close>, which tells for a grid
  (geotransform and size), a footprint and a pixel whether the pixel is burned.
\<close>

record environ =
  LANDUSE_DATASET_S3_PATH :: string
  OUTPUT_S3_FOLDER :: string
  S2L2A_TILES :: string

record services =
  gdal_Open :: "string \<Rightarrow> dataset option"
  Transform :: "footprint \<Rightarrow> footprint"
  RasterizeLayer :: "geotransform \<Rightarrow> nat \<Rightarrow> nat \<Rightarrow> footprint \<Rightarrow> nat \<Rightarrow> nat \<Rightarrow> bool"

record response =
  statusCode :: nat
  body :: string

text \<open>\<^verbatim>\<open>json.dumps\<close> of a string without characters to escape.\<close>

definition json_dumps :: "string \<Rightarrow> string" where
  "json_dumps s = [CHR 0x22] @ s @ [CHR 0x22]"

text \<open>\<^verbatim>\<open>path.replace('s3://', '/vsis3/')\<close>.\<close>

fun replace_s3 :: "string \<Rightarrow> string" where
  "replace_s3 (c1 # c2 # c3 # c4 # c5 # cs) =
     (if [c1, c2, c3, c4, c5] = ''s3://'' then ''/vsis3/'' @ replace_s3 cs
      else c1 # replace_s3 (c2 # c3 # c4 # c5 # cs))"
| "replace_s3 cs = cs"

text \<open>
  \<^verbatim>\<open>band.ReadAsArray(xoff, yoff, win_xsize, win_ysize)\<close>: NumPy refuses a negative size
  (\<^verbatim>\<open>ValueError\<close>), GDAL skips a window without pixels and leaves the empty buffer, and
  refuses a window that is not inside the raster (\<^verbatim>\<open>RuntimeError\<close>).
\<close>

definition ReadAsArray :: "dataset \<Rightarrow> int \<Rightarrow> int \<Rightarrow> int \<Rightarrow> int \<Rightarrow> error + int ndarray" where
  "ReadAsArray ds xoff yoff win_xsize win_ysize =
     (if win_xsize < 0 \<or> win_ysize < 0 then Inl ValueError
      else if win_xsize = 0 \<or> win_ysize = 0
        then Inr \<lparr>nrows = nat win_ysize, ncols = nat win_xsize, cell = (\<lambda>i j. 0)\<rparr>
      else if xoff < 0 \<or> yoff < 0 \<or> int (RasterXSize ds) < xoff + win_xsize
                \<or> int (RasterYSize ds) < yoff + win_ysize
        then Inl RuntimeError
      else Inr \<lparr>nrows = nat win_ysize, ncols = nat win_xsize,
                cell = (\<lambda>i j. band1 ds (nat yoff + i) (nat xoff + j))\<rparr>)"

subsection \<open>Tile reconciliation (\<^verbatim>\<open>lambda_handler\<close>, lines 147 to 163)\<close>

definition item_name_of :: "string \<Rightarrow> string \<Rightarrow> string" where
  "item_name_of item_id grid_name = take 4 item_id @ grid_name @ drop 9 item_id"

text \<open>
  One iteration of the loop over the grid names. The \<^verbatim>\<open>print\<close> of line 153 calls
  \<^verbatim>\<open>exist_s3_path\<close> for every name; the guard of line 155 calls it again for the names
  that differ from the item's own.
\<close>

definition reconcile_step ::
  "string \<Rightarrow> string \<Rightarrow> string \<Rightarrow> geometry \<times> s3_client \<Rightarrow> error + geometry \<times> s3_client" where
  "reconcile_step output_folder item_id grid_name st =
     (case st of (aoi_geometry, s3) \<Rightarrow>
        let item_name = item_name_of item_id grid_name;
            item_path = os_path_join output_folder (item_name @ ''.json'')
        in (case exist_s3_path s3 item_path of
              Inl e \<Rightarrow> Inl e
            | Inr printed \<Rightarrow>
               (if item_name = item_id then Inr (aoi_geometry, s3)
                else
                 (case exist_s3_path s3 item_path of
                    Inl e \<Rightarrow> Inl e
                  | Inr False \<Rightarrow> Inr (aoi_geometry, s3)
                  | Inr True \<Rightarrow>
                     (case parse_s3_path item_path of
                        Inl e \<Rightarrow> Inl e
                      | Inr (bucket_name, prefix_path) \<Rightarrow>
                         (case get_object s3 bucket_name prefix_path of
                            Inl e \<Rightarrow> Inl e
                          | Inr (s3_content, s3') \<Rightarrow>
                             (case json_loads s3_content of
                                Inl e \<Rightarrow> Inl e
                              | Inr item_obj \<Rightarrow>
                                 (case doc_land_use item_obj of
                                    None \<Rightarrow> Inl KeyError
                                  | Some lu \<Rightarrow>
                                     (let temp_env = json_aoi_extent lu
                                      in if length temp_env < 4 then Inl IndexError
                                         else
                                           (let geom_obj = create_geometry_from_bbox
                                                  (temp_env ! 0) (temp_env ! 1) (temp_env ! 2) (temp_env ! 3)
                                            in Inr ((if Intersects aoi_geometry geom_obj
                                                     then Difference aoi_geometry geom_obj
                                                     else aoi_geometry), s3')))))))))))"

fun reconcile ::
  "string \<Rightarrow> string \<Rightarrow> string list \<Rightarrow> geometry \<times> s3_client \<Rightarrow> error + geometry \<times> s3_client" where
  "reconcile output_folder item_id [] st = Inr st"
| "reconcile output_folder item_id (grid_name # grid_names) st =
     (case reconcile_step output_folder item_id grid_name st of
        Inl e \<Rightarrow> Inl e
      | Inr st' \<Rightarrow> reconcile output_folder item_id grid_names st')"

text \<open>
  The guarded subtraction of line 163 on its own, and its iteration over the neighbours'
  geometries in the order the loop meets them.
\<close>

definition subtract_neighbor :: "geometry \<Rightarrow> geometry \<Rightarrow> geometry" where
  "subtract_neighbor aoi_geometry geom_obj =
     (if Intersects aoi_geometry geom_obj then Difference aoi_geometry geom_obj else aoi_geometry)"

definition subtract_neighbors :: "geometry \<Rightarrow> geometry list \<Rightarrow> geometry" where
  "subtract_neighbors aoi_geometry geoms = foldl subtract_neighbor aoi_geometry geoms"

text \<open>
  What an iteration of the loop reads from the bucket, apart from the running AOI: an
  error, nothing (the item's own name, or no stored result), or the stored extent and the
  key it was fetched under. The extents a run over a list of grid names subtracts, in the
  order of the list.
\<close>

definition neighbor_extent ::
  "string \<Rightarrow> string \<Rightarrow> (string \<times> string \<Rightarrow> s3_object option) \<Rightarrow> string
     \<Rightarrow> error + ((rat \<times> rat \<times> rat \<times> rat) \<times> (string \<times> string)) option" where
  "neighbor_extent output_folder item_id objs grid_name =
     (let item_name = item_name_of item_id grid_name;
          item_path = os_path_join output_folder (item_name @ ''.json'')
      in (case parse_s3_path item_path of
            Inl e \<Rightarrow> Inl e
          | Inr key \<Rightarrow>
             (if item_name = item_id then Inr None
              else
               (case objs key of
                  None \<Rightarrow> Inr None
                | Some s3_content \<Rightarrow>
                   (case json_loads s3_content of
                      Inl e \<Rightarrow> Inl e
                    | Inr item_obj \<Rightarrow>
                       (case doc_land_use item_obj of
                          None \<Rightarrow> Inl KeyError
                        | Some lu \<Rightarrow>
                           (let temp_env = json_aoi_extent lu
                            in if length temp_env < 4 then Inl IndexError
                               else Inr (Some ((temp_env ! 0, temp_env ! 1, temp_env ! 2, temp_env ! 3),
                                               key)))))))))"

definition neighbor_extents ::
  "string \<Rightarrow> string \<Rightarrow> (string \<times> string \<Rightarrow> s3_object option) \<Rightarrow> string list
     \<Rightarrow> (rat \<times> rat \<times> rat \<times> rat) list" where
  "neighbor_extents output_folder item_id objs grid_names =
     concat (map (\<lambda>g. case neighbor_extent output_folder item_id objs g of
                         Inr (Some (ext, key)) \<Rightarrow> [ext]
                       | _ \<Rightarrow> []) grid_names)"

definition neighbor_ok ::
  "string \<Rightarrow> string \<Rightarrow> (string \<times> string \<Rightarrow> s3_object option) \<Rightarrow> string \<Rightarrow> bool" where
  "neighbor_ok output_folder item_id objs grid_name =
     (case neighbor_extent output_folder item_id objs grid_name of Inl e \<Rightarrow> False | Inr x \<Rightarrow> True)"

subsection \<open>From the residual AOI to the statistics (lines 165 to 240)\<close>

text \<open>Lines 165 to 170: the envelope of the residual AOI, clamped to the land-use extent.\<close>

definition clamp_aoi_extent :: "geometry \<Rightarrow> extent \<Rightarrow> extent" where
  "clamp_aoi_extent aoi_geometry lu_extent =
     (case GetEnvelope aoi_geometry of (temp_x_min, temp_x_max, temp_y_min, temp_y_max) \<Rightarrow>
      case lu_extent of (lu0, lu1, lu2, lu3) \<Rightarrow>
        let aoi_x_min = max temp_x_min lu0;
            aoi_y_min = max temp_y_min lu1;
            aoi_x_max = min temp_x_max lu2;
            aoi_y_max = min temp_y_max lu3
        in (aoi_x_min, aoi_y_min, aoi_x_max, aoi_y_max))"

text \<open>
  Lines 174 to 185: the two windowed reads. The nodata values are read and not used.
\<close>

definition read_window :: "dataset \<Rightarrow> extent \<Rightarrow> error + int ndarray" where
  "read_window ds aoi_extent =
     (case get_reading_window ds aoi_extent of
        Inl e \<Rightarrow> Inl e
      | Inr (left, upper, right, lower) \<Rightarrow>
          let no_data = NoDataValue ds
          in ReadAsArray ds left upper (right - left) (lower - upper))"

definition read_rasters :: "dataset \<Rightarrow> dataset \<Rightarrow> extent \<Rightarrow> error + int ndarray \<times> int ndarray" where
  "read_rasters cm_dataset lu_dataset aoi_extent =
     (case read_window cm_dataset aoi_extent of
        Inl e \<Rightarrow> Inl e
      | Inr cm_raster \<Rightarrow>
          (case read_window lu_dataset aoi_extent of
             Inl e \<Rightarrow> Inl e
           | Inr lu_raster \<Rightarrow> Inr (cm_raster, lu_raster)))"

text \<open>
  Lines 187 to 189: the resolution of the cloud mask, rounded to five decimals (the grid
  reference EPSG:32630 is projected, so \<^verbatim>\<open>IsGeographic()\<close> is false).
\<close>

definition cm_resolution :: "dataset \<Rightarrow> extent \<Rightarrow> error + rat \<times> rat" where
  "cm_resolution cm_dataset cm_extent =
     (case cm_extent of (e0, e1, e2, e3) \<Rightarrow>
        let num_decimals = 5
        in if RasterXSize cm_dataset = 0 \<or> RasterYSize cm_dataset = 0 then Inl ZeroDivisionError
           else Inr (py_round_digits ((e2 - e0) / of_nat (RasterXSize cm_dataset)) num_decimals,
                     py_round_digits ((e3 - e1) / of_nat (RasterYSize cm_dataset)) num_decimals))"

text \<open>Lines 196 to 203: the urban mask as integers, with 2 where the pixel is also cloud-free.\<close>

definition merge_valid_pixels :: "int ndarray \<Rightarrow> int ndarray \<Rightarrow> int list \<Rightarrow> int list \<Rightarrow> error + int ndarray" where
  "merge_valid_pixels cm_raster lu_raster cm_classes lu_classes =
     (let cm_raster = astype_int (get_valid_sen2cor_cloud_mask cm_raster cm_classes);
          lu_raster = astype_int (get_valid_sigpac_urban_mask lu_raster lu_classes);
          rs_raster = lu_raster
      in case logical_and (gt_scalar cm_raster 0) (gt_scalar lu_raster 0) of
           Inl e \<Rightarrow> Inl e
         | Inr valid_mask \<Rightarrow> assign_masked rs_raster valid_mask 2)"

text \<open>
  Lines 213 to 229: the footprint burned into a byte raster over the AOI extent, at the
  cloud mask's resolution. \<^verbatim>\<open>driver.Create\<close> refuses a raster without pixels.
\<close>

definition footprint_raster ::
  "services \<Rightarrow> extent \<Rightarrow> rat \<times> rat \<Rightarrow> footprint \<Rightarrow> error + int ndarray" where
  "footprint_raster svc aoi_extent resolution geometry =
     (case aoi_extent of (a0, a1, a2, a3) \<Rightarrow>
      case resolution of (resolution_x, resolution_y) \<Rightarrow>
        if resolution_x = 0 \<or> resolution_y = 0 then Inl ZeroDivisionError
        else
          let gm_raster_size_x = py_int ((a2 - a0) / resolution_x);
              gm_raster_size_y = py_int ((a3 - a1) / resolution_y)
          in if gm_raster_size_x < 1 \<or> gm_raster_size_y < 1 then Inl RuntimeError
             else
               let gt = (a0, resolution_x, 0, a3, 0, - resolution_y);
                   sx = nat gm_raster_size_x; sy = nat gm_raster_size_y
               in Inr \<lparr>nrows = sy, ncols = sx,
                        cell = (\<lambda>i j. if RasterizeLayer svc gt sx sy geometry i j then 1 else 0)\<rparr>)"

text \<open>
  Lines 234 to 240: pixels outside the footprint are zeroed, the two counts are taken and
  the cover is their quotient. \<^verbatim>\<open>np.count_nonzero\<close> returns a Python integer, so the
  division of a float by the integer zero raises \<^verbatim>\<open>ZeroDivisionError\<close>.
\<close>

definition urban_statistics :: "int ndarray \<Rightarrow> int ndarray \<Rightarrow> error + nat \<times> nat \<times> rat" where
  "urban_statistics rs_raster gm_raster =
     (let valid_mask = eq_scalar gm_raster 1
      in case assign_masked rs_raster (logical_not valid_mask) 0 of
           Inl e \<Rightarrow> Inl e
         | Inr rs_raster \<Rightarrow>
             let count_of_valid_urban_pixels = count_nonzero (eq_scalar rs_raster 2);
                 count_of_urban_pixels = count_nonzero (gt_scalar rs_raster 0)
             in if count_of_urban_pixels = 0 then Inl ZeroDivisionError
                else Inr (count_of_urban_pixels, count_of_valid_urban_pixels,
                          (100 * of_nat count_of_valid_urban_pixels) / of_nat count_of_urban_pixels))"

text \<open>The statistics step on the three rasters: lines 196 to 203 and 234 to 240.\<close>

definition statistics_step ::
  "int ndarray \<Rightarrow> int ndarray \<Rightarrow> int list \<Rightarrow> int list \<Rightarrow> int ndarray \<Rightarrow> error + nat \<times> nat \<times> rat" where
  "statistics_step cm_raster lu_raster cm_classes lu_classes gm_raster =
     (case merge_valid_pixels cm_raster lu_raster cm_classes lu_classes of
        Inl e \<Rightarrow> Inl e
      | Inr rs_raster \<Rightarrow> urban_statistics rs_raster gm_raster)"

subsection \<open>The handler (\<^verbatim>\<open>lambda_handler\<close>)\<close>

text \<open>Lines 118 to 136: the two datasets are opened.\<close>

definition open_datasets :: "environ \<Rightarrow> services \<Rightarrow> message \<Rightarrow> error + dataset \<times> dataset" where
  "open_datasets env svc message_obj =
     (let lu_dataset_path = LANDUSE_DATASET_S3_PATH env;
          cm_object_path = ''/vsicurl/'' @ msg_SCL_href message_obj
      in case gdal_Open svc cm_object_path of
           None \<Rightarrow> Inl RuntimeError
         | Some cm_dataset \<Rightarrow>
             (let lu_object_path = replace_s3 lu_dataset_path
              in case gdal_Open svc lu_object_path of
                   None \<Rightarrow> Inl RuntimeError
                 | Some lu_dataset \<Rightarrow> Inr (cm_dataset, lu_dataset)))"

definition extent_geometry :: "extent \<Rightarrow> geometry" where
  "extent_geometry ext = (case ext of (e0, e1, e2, e3) \<Rightarrow> create_geometry_from_bbox e0 e1 e2 e3)"

definition extent_list :: "extent \<Rightarrow> rat list" where
  "extent_list ext = (case ext of (e0, e1, e2, e3) \<Rightarrow> [e0, e1, e2, e3])"

text \<open>
  Lines 147 to 170: the candidate AOI, the reconciliation with the stored neighbours and
  the clamped extent of what is left.
\<close>

definition residual_aoi ::
  "environ \<Rightarrow> s3_client \<Rightarrow> string \<Rightarrow> dataset \<Rightarrow> dataset \<Rightarrow> error + geometry \<times> s3_client" where
  "residual_aoi env s3 item_id cm_dataset lu_dataset =
     (let output_folder = OUTPUT_S3_FOLDER env;
          grid_names = py_split_char CHR '','' (S2L2A_TILES env);
          cm_geometry = extent_geometry (get_envelope cm_dataset);
          lu_geometry = extent_geometry (get_envelope lu_dataset);
          aoi_geometry = Intersection cm_geometry lu_geometry
      in reconcile output_folder item_id grid_names (aoi_geometry, s3))"

text \<open>
  Lines 173 to 240: from the clamped extent to the two counts and the cover, in the order
  of the code: the windowed reads, the resolution, the merged raster, the footprint mask,
  the statistics.
\<close>

definition aoi_statistics ::
  "services \<Rightarrow> footprint \<Rightarrow> dataset \<Rightarrow> dataset \<Rightarrow> extent \<Rightarrow> error + nat \<times> nat \<times> rat" where
  "aoi_statistics svc geometry cm_dataset lu_dataset aoi_extent =
     (case read_rasters cm_dataset lu_dataset aoi_extent of
        Inl e \<Rightarrow> Inl e
      | Inr (cm_raster, lu_raster) \<Rightarrow>
         (case cm_resolution cm_dataset (get_envelope cm_dataset) of
            Inl e \<Rightarrow> Inl e
          | Inr resolution \<Rightarrow>
             (case merge_valid_pixels cm_raster lu_raster
                     sen2cor_valid_classes sigpac_valid_classes of
                Inl e \<Rightarrow> Inl e
              | Inr rs_raster \<Rightarrow>
                 (case footprint_raster svc aoi_extent resolution geometry of
                    Inl e \<Rightarrow> Inl e
                  | Inr gm_raster \<Rightarrow> urban_statistics rs_raster gm_raster))))"

text \<open>
  Lines 165 to 256: everything after the reconciliation. The result document is the
  message with the \<^verbatim>\<open>land_use\<close> object, whose \<^verbatim>\<open>aoi_extent\<close> is \<^verbatim>\<open>cm_extent\<close> (line 247).
\<close>

definition process_aoi ::
  "environ \<Rightarrow> services \<Rightarrow> message \<Rightarrow> dataset \<Rightarrow> dataset \<Rightarrow> geometry \<times> s3_client
     \<Rightarrow> error + response \<times> s3_client" where
  "process_aoi env svc message_obj cm_dataset lu_dataset st =
     (case st of (aoi_geometry, s3) \<Rightarrow>
        let output_folder = OUTPUT_S3_FOLDER env;
            item_id = msg_id message_obj;
            geometry = Transform svc (msg_geometry message_obj);
            cm_extent = get_envelope cm_dataset;
            lu_extent = get_envelope lu_dataset;
            aoi_extent = clamp_aoi_extent aoi_geometry lu_extent
        in (case aoi_statistics svc geometry cm_dataset lu_dataset aoi_extent of
              Inl e \<Rightarrow> Inl e
            | Inr (count_of_urban_pixels, count_of_valid_urban_pixels, cover) \<Rightarrow>
               (let doc = \<lparr>doc_message = message_obj,
                           doc_land_use = Some
                             \<lparr>json_urban_pixels = count_of_urban_pixels,
                              json_valid_urban_pixels = count_of_valid_urban_pixels,
                              json_urban_cover = cover,
                              json_aoi_extent = extent_list cm_extent\<rparr>\<rparr>
                in case parse_s3_path (os_path_join output_folder (item_id @ ''.json'')) of
                     Inl e \<Rightarrow> Inl e
                   | Inr (bucket_name, prefix_path) \<Rightarrow>
                       Inr (\<lparr>statusCode = 200, body = json_dumps ''OK''\<rparr>,
                            upload_file s3 doc bucket_name prefix_path))))"

definition lambda_handler ::
  "environ \<Rightarrow> services \<Rightarrow> s3_client \<Rightarrow> message \<Rightarrow> error + response \<times> s3_client" where
  "lambda_handler env svc s3 message_obj =
     (case open_datasets env svc message_obj of
        Inl e \<Rightarrow> Inl e
      | Inr (cm_dataset, lu_dataset) \<Rightarrow>
          (let cm_geometry = extent_geometry (get_envelope cm_dataset);
               lu_geometry = extent_geometry (get_envelope lu_dataset)
           in if \<not> Intersects lu_geometry cm_geometry
              then Inr (\<lparr>statusCode = 200, body = json_dumps ''Input data do not intersect''\<rparr>, s3)
              else
                (case residual_aoi env s3 (msg_id message_obj) cm_dataset lu_dataset of
                   Inl e \<Rightarrow> Inl e
                 | Inr st \<Rightarrow> process_aoi env svc message_obj cm_dataset lu_dataset st)))"

section \<open>Concrete inputs\<close>



text \<open>
  The 4 by 4 windows of the end-to-end example: a cloud mask with four pixels of class 1,
  a land-use window of class 0 and a footprint mask that covers the grid.
\<close>

definition example_cm_window :: "int ndarray" where
  "example_cm_window = array_of_rows [[4, 4, 1, 1], [4, 4, 1, 1], [2, 2, 2, 2], [2, 2, 2, 2]]"

definition example_lu_window :: "int ndarray" where
  "example_lu_window = array_of_rows [[0, 0, 0, 0], [0, 0, 0, 0], [0, 0, 0, 0], [0, 0, 0, 0]]"

definition example_full_mask :: "int ndarray" where
  "example_full_mask = array_of_rows [[1, 1, 1, 1], [1, 1, 1, 1], [1, 1, 1, 1], [1, 1, 1, 1]]"

text \<open>
  An invocation: tile 30TWM with neighbour 30TXM, a cloud mask of 4 by 4 pixels of one
  metre over \<open>[10, 14] \<times> [10, 14]\<close> and a land-use raster of urban pixels over
  \<open>[12, 16] \<times> [10, 14]\<close>, so that the candidate AOI is \<open>[12, 14] \<times> [10, 14]\<close>.
\<close>

definition example_env :: environ where
  "example_env =
     \<lparr>LANDUSE_DATASET_S3_PATH = ''s3://bucket/landuse.tif'',
      OUTPUT_S3_FOLDER = ''s3://bucket/out'',
      S2L2A_TILES = ''30TWM,30TXM''\<rparr>"

definition example_message :: message where
  "example_message =
     \<lparr>msg_id = ''S2A_30TWM_20210101_0_L2A'',
      msg_geometry = [(10, 10), (14, 10), (14, 14), (10, 14), (10, 10)],
      msg_SCL_href = ''https://host/SCL.tif''\<rparr>"

definition example_cm_dataset :: dataset where
  "example_cm_dataset =
     \<lparr>GeoTransform = (10, 1, 0, 14, 0, -1), RasterXSize = 4, RasterYSize = 4,
      NoDataValue = Some 0,
      band1 = (\<lambda>i j. [[4, 4, 1, 1], [4, 4, 1, 1], [2, 2, 2, 2], [2, 2, 2, 2]] ! i ! j)\<rparr>"

definition example_lu_dataset :: dataset where
  "example_lu_dataset =
     \<lparr>GeoTransform = (12, 1, 0, 14, 0, -1), RasterXSize = 4, RasterYSize = 4,
      NoDataValue = Some 255, band1 = (\<lambda>i j. 0)\<rparr>"

definition example_open :: "string \<Rightarrow> dataset option" where
  "example_open path =
     (if path = ''/vsicurl/https://host/SCL.tif'' then Some example_cm_dataset
      else if path = ''/vsis3/bucket/landuse.tif'' then Some example_lu_dataset
      else None)"

text \<open>A rasterizer that burns every pixel, and one that burns none.\<close>

definition inside_services :: services where
  "inside_services =
     \<lparr>gdal_Open = example_open, Transform = (\<lambda>g. g),
      RasterizeLayer = (\<lambda>gt sx sy g i j. True)\<rparr>"

definition outside_services :: services where
  "outside_services =
     \<lparr>gdal_Open = example_open, Transform = (\<lambda>g. g),
      RasterizeLayer = (\<lambda>gt sx sy g i j. False)\<rparr>"

text \<open>
  An empty bucket, and one that holds the result of the neighbour 30TXM, whose stored
  extent \<open>[12, 10, 18, 14]\<close> covers the candidate AOI.
\<close>

definition empty_s3 :: s3_client where
  "empty_s3 = \<lparr>objects = (\<lambda>k. None), get_object_calls = []\<rparr>"

definition neighbour_doc :: item_doc where
  "neighbour_doc =
     \<lparr>doc_message = example_message\<lparr>msg_id := ''S2A_30TXM_20210101_0_L2A''\<rparr>,
      doc_land_use = Some \<lparr>json_urban_pixels = 8, json_valid_urban_pixels = 4,
                            json_urban_cover = 50, json_aoi_extent = [12, 10, 18, 14]\<rparr>\<rparr>"

definition neighbour_s3 :: s3_client where
  "neighbour_s3 =
     \<lparr>objects = (\<lambda>k. if k = (''bucket'', ''out/S2A_30TXM_20210101_0_L2A.json'')
                       then Some (JsonDoc neighbour_doc) else None),
      get_object_calls = []\<rparr>"

text \<open>A land-use raster far from the cloud mask: over \<open>[100, 104] \<times> [10, 14]\<close>.\<close>

definition far_lu_dataset :: dataset where
  "far_lu_dataset =
     \<lparr>GeoTransform = (100, 1, 0, 14, 0, -1), RasterXSize = 4, RasterYSize = 4,
      NoDataValue = Some 255, band1 = (\<lambda>i j. 0)\<rparr>"

definition far_services :: services where
  "far_services =
     \<lparr>gdal_Open = (\<lambda>path. if path = ''/vsicurl/https://host/SCL.tif'' then Some example_cm_dataset
                           else if path = ''/vsis3/bucket/landuse.tif'' then Some far_lu_dataset
                           else None),
      Transform = (\<lambda>g. g),
      RasterizeLayer = (\<lambda>gt sx sy g i j. True)\<rparr>"

text \<open>The document the example invocation stores when the bucket is empty.\<close>

definition example_doc :: item_doc where
  "example_doc =
     \<lparr>doc_message = example_message,
      doc_land_use = Some \<lparr>json_urban_pixels = 8, json_valid_urban_pixels = 4,
                            json_urban_cover = 50, json_aoi_extent = [10, 10, 14, 14]\<rparr>\<rparr>"

text \<open>
  A bucket with the result of the neighbour 30TXM whose stored extent \<open>[13, 10, 18, 14]\<close>
  covers the eastern half of the candidate AOI.
\<close>

definition half_neighbour_doc :: item_doc where
  "half_neighbour_doc =
     \<lparr>doc_message = example_message\<lparr>msg_id := ''S2A_30TXM_20210101_0_L2A''\<rparr>,
      doc_land_use = Some \<lparr>json_urban_pixels = 8, json_valid_urban_pixels = 4,
                            json_urban_cover = 50, json_aoi_extent = [13, 10, 18, 14]\<rparr>\<rparr>"

definition half_neighbour_s3 :: s3_client where
  "half_neighbour_s3 =
     \<lparr>objects = (\<lambda>k. if k = (''bucket'', ''out/S2A_30TXM_20210101_0_L2A.json'')
                       then Some (JsonDoc half_neighbour_doc) else None),
      get_object_calls = []\<rparr>"

section \<open>Properties\<close>

subsection \<open>Facts about rounding\<close>

lemma py_round_of_int: "py_round (of_int n) = n"
  by (simp add: py_round_def)

lemma py_round_zero: "py_round 0 = 0"
  using py_round_of_int [of 0] by simp

lemma py_round_of_nat: "py_round (of_nat n) = int n"
  using py_round_of_int [of "int n"] by simp


subsection \<open>Envelopes and reading windows\<close>


lemma envelope_normalized:
  "case get_envelope ds of (min_x, min_y, max_x, max_y) \<Rightarrow> min_x \<le> max_x \<and> min_y \<le> max_y"
  by (cases "GeoTransform ds") (simp add: get_envelope_def Let_def min_def max_def)

text \<open>The window of a bounding box, where no divisor is zero.\<close>

lemma get_reading_window_formula:
  assumes "get_envelope ds = (x0, y0, x1, y1)"
    and "0 < RasterXSize ds" and "0 < RasterYSize ds" and "x0 \<noteq> x1" and "y0 \<noteq> y1"
  shows "get_reading_window ds (u0, v0, u1, v1) =
    Inr (py_round ((u0 - x0) / (\<bar>x0 - x1\<bar> / of_nat (RasterXSize ds))),
         py_round ((y1 - v1) / (\<bar>y1 - y0\<bar> / of_nat (RasterYSize ds))),
         py_round ((u1 - x0) / (\<bar>x0 - x1\<bar> / of_nat (RasterXSize ds))),
         py_round ((y1 - v0) / (\<bar>y1 - y0\<bar> / of_nat (RasterYSize ds))))"
  using assms by (simp add: get_reading_window_def Let_def)

lemma full_span_quotient:
  assumes "x0 < (x1::rat)" and "0 < n"
  shows "(x1 - x0) / (\<bar>x0 - x1\<bar> / of_nat n) = of_nat n"
    and "(x1 - x0) / (\<bar>x1 - x0\<bar> / of_nat n) = of_nat n"
  using assms by simp_all






subsection \<open>The short circuit for inputs that do not overlap\<close>

text \<open>
  C4. Where both datasets open and the envelope polygon of the land-use dataset does not
  intersect the envelope polygon of the cloud mask, the handler returns status 200 with a
  body that differs from the normal one, and the S3 client is as it was: no object is
  fetched and no result document is written.
\<close>

theorem no_overlap_short_circuit:
  assumes "open_datasets env svc message_obj = Inr (cm_dataset, lu_dataset)"
    and "\<not> Intersects (extent_geometry (get_envelope lu_dataset))
                       (extent_geometry (get_envelope cm_dataset))"
  shows "lambda_handler env svc s3 message_obj
           = Inr (\<lparr>statusCode = 200, body = json_dumps ''Input data do not intersect''\<rparr>, s3)
         \<and> json_dumps ''Input data do not intersect'' \<noteq> json_dumps ''OK''"
  using assms by (simp add: lambda_handler_def json_dumps_def)

text \<open>The theorem where the land-use raster lies far east of the cloud mask.\<close>

theorem no_overlap_short_circuit_witness:
  "lambda_handler example_env far_services neighbour_s3 example_message
     = Inr (\<lparr>statusCode = 200, body = json_dumps ''Input data do not intersect''\<rparr>, neighbour_s3)"
proof -
  have o: "open_datasets example_env far_services example_message
             = Inr (example_cm_dataset, far_lu_dataset)"
    by (simp add: open_datasets_def example_env_def far_services_def example_message_def)
  have n: "\<not> Intersects (extent_geometry (get_envelope far_lu_dataset))
                       (extent_geometry (get_envelope example_cm_dataset))"
    by code_simp
  from no_overlap_short_circuit [OF o n] show ?thesis by blast
qed

subsection \<open>The declared nodata values are never consulted\<close>

lemma get_envelope_nodata: "get_envelope (ds\<lparr>NoDataValue := n\<rparr>) = get_envelope ds"
  by (simp add: get_envelope_def)

lemma get_reading_window_nodata:
  "get_reading_window (ds\<lparr>NoDataValue := n\<rparr>) bbox = get_reading_window ds bbox"
  by (simp add: get_reading_window_def get_envelope_nodata)

lemma ReadAsArray_nodata:
  "ReadAsArray (ds\<lparr>NoDataValue := n\<rparr>) xoff yoff xs ys = ReadAsArray ds xoff yoff xs ys"
  by (simp add: ReadAsArray_def)

lemma read_window_nodata: "read_window (ds\<lparr>NoDataValue := n\<rparr>) ext = read_window ds ext"
  by (simp add: read_window_def get_reading_window_nodata ReadAsArray_nodata Let_def
      split: sum.splits prod.splits)

lemma read_rasters_nodata:
  "read_rasters (cm\<lparr>NoDataValue := n\<rparr>) (lu\<lparr>NoDataValue := m\<rparr>) ext = read_rasters cm lu ext"
  by (simp add: read_rasters_def read_window_nodata split: sum.splits)

lemma cm_resolution_nodata:
  "cm_resolution (cm\<lparr>NoDataValue := n\<rparr>) ext = cm_resolution cm ext"
  by (simp add: cm_resolution_def split: prod.splits)

lemma residual_aoi_nodata:
  "residual_aoi env s3 item_id (cm\<lparr>NoDataValue := n\<rparr>) (lu\<lparr>NoDataValue := m\<rparr>)
     = residual_aoi env s3 item_id cm lu"
  by (simp add: residual_aoi_def get_envelope_nodata)

lemma footprint_raster_open:
  "footprint_raster (svc\<lparr>gdal_Open := opn\<rparr>) ext res g = footprint_raster svc ext res g"
  by (simp add: footprint_raster_def Let_def split: prod.splits)

lemma aoi_statistics_nodata:
  "aoi_statistics (svc\<lparr>gdal_Open := opn\<rparr>) g (cm\<lparr>NoDataValue := n\<rparr>) (lu\<lparr>NoDataValue := m\<rparr>) ext
     = aoi_statistics svc g cm lu ext"
  by (simp add: aoi_statistics_def get_envelope_nodata read_rasters_nodata cm_resolution_nodata
      footprint_raster_open split: sum.splits prod.splits)

lemma process_aoi_nodata:
  "process_aoi env (svc\<lparr>gdal_Open := opn\<rparr>) message_obj
       (cm\<lparr>NoDataValue := n\<rparr>) (lu\<lparr>NoDataValue := m\<rparr>) st
     = process_aoi env svc message_obj cm lu st"
  by (simp add: process_aoi_def get_envelope_nodata aoi_statistics_nodata Let_def
      split: sum.splits prod.splits)

lemma open_datasets_nodata:
  "open_datasets env
       (svc\<lparr>gdal_Open := \<lambda>p. map_option (\<lambda>d. d\<lparr>NoDataValue := nd p\<rparr>) (gdal_Open svc p)\<rparr>)
       message_obj
     = (case open_datasets env svc message_obj of
          Inl e \<Rightarrow> Inl e
        | Inr (cm, lu) \<Rightarrow>
            Inr (cm\<lparr>NoDataValue := nd (''/vsicurl/'' @ msg_SCL_href message_obj)\<rparr>,
                 lu\<lparr>NoDataValue := nd (replace_s3 (LANDUSE_DATASET_S3_PATH env))\<rparr>))"
  by (simp add: open_datasets_def Let_def split: option.splits)

text \<open>
  C10. Two invocations that differ only in the nodata values the datasets declare (here:
  every dataset that opens has its nodata value replaced, by a value that may depend on
  the path) give the same result: the same response and the same stored document, so the
  same \<^verbatim>\<open>urban_pixels\<close>, \<^verbatim>\<open>valid_urban_pixels\<close> and \<^verbatim>\<open>urban_cover\<close>, or the same error. A
  pixel is classified by its class code alone.
\<close>

theorem nodata_noninterference:
  "lambda_handler env
       (svc\<lparr>gdal_Open := \<lambda>p. map_option (\<lambda>d. d\<lparr>NoDataValue := nd p\<rparr>) (gdal_Open svc p)\<rparr>)
       s3 message_obj
     = lambda_handler env svc s3 message_obj"
  by (simp add: lambda_handler_def open_datasets_nodata get_envelope_nodata residual_aoi_nodata
      process_aoi_nodata Let_def split: sum.splits prod.splits)


subsection \<open>The example invocation, step by step\<close>

lemma example_open_datasets:
  assumes "gdal_Open svc = example_open"
  shows "open_datasets example_env svc example_message = Inr (example_cm_dataset, example_lu_dataset)"
  using assms by (simp add: open_datasets_def example_env_def example_message_def example_open_def)

lemma example_paths:
  "parse_s3_path ''s3://bucket/out/S2A_30TWM_20210101_0_L2A.json''
     = Inr (''bucket'', ''out/S2A_30TWM_20210101_0_L2A.json'')"
  "parse_s3_path ''s3://bucket/out/S2A_30TXM_20210101_0_L2A.json''
     = Inr (''bucket'', ''out/S2A_30TXM_20210101_0_L2A.json'')"
  by code_simp+

lemma example_names:
  "py_split_char CHR '','' (S2L2A_TILES example_env) = [''30TWM'', ''30TXM'']"
  "os_path_join (OUTPUT_S3_FOLDER example_env) (item_name_of (msg_id example_message) ''30TWM'' @ ''.json'')
     = ''s3://bucket/out/S2A_30TWM_20210101_0_L2A.json''"
  "os_path_join (OUTPUT_S3_FOLDER example_env) (item_name_of (msg_id example_message) ''30TXM'' @ ''.json'')
     = ''s3://bucket/out/S2A_30TXM_20210101_0_L2A.json''"
  "os_path_join (OUTPUT_S3_FOLDER example_env) (msg_id example_message @ ''.json'')
     = ''s3://bucket/out/S2A_30TWM_20210101_0_L2A.json''"
  "item_name_of (msg_id example_message) ''30TWM'' = msg_id example_message"
  "item_name_of (msg_id example_message) ''30TXM'' \<noteq> msg_id example_message"
  by code_simp+

lemma example_candidate:
  "Intersection (extent_geometry (10, 10, 14, 14)) (extent_geometry (12, 10, 16, 14)) = [Box 12 10 14 14]"
  "Intersects (extent_geometry (12, 10, 16, 14)) (extent_geometry (10, 10, 14, 14))"
  "get_envelope example_cm_dataset = (10, 10, 14, 14)"
  "get_envelope example_lu_dataset = (12, 10, 16, 14)"
  by code_simp+

lemma example_residual_empty_bucket:
  "residual_aoi example_env empty_s3 (msg_id example_message) example_cm_dataset example_lu_dataset
     = Inr ([Box 12 10 14 14], empty_s3)"
  by (simp add: residual_aoi_def example_names example_candidate reconcile_step_def exist_s3_path_def
      example_paths Let_def) (simp add: empty_s3_def)

lemma example_neighbour_step:
  "json_loads (JsonDoc neighbour_doc) = Inr neighbour_doc"
  "doc_land_use neighbour_doc = Some \<lparr>json_urban_pixels = 8, json_valid_urban_pixels = 4,
                            json_urban_cover = 50, json_aoi_extent = [12, 10, 18, 14]\<rparr>"
  "Intersects [Box 12 10 14 14] (create_geometry_from_bbox 12 10 18 14)"
  "Difference [Box 12 10 14 14] (create_geometry_from_bbox 12 10 18 14) = []"
  by (simp add: json_loads_def, simp add: neighbour_doc_def, code_simp, code_simp)

lemma example_residual_neighbour:
  "residual_aoi example_env neighbour_s3 (msg_id example_message) example_cm_dataset example_lu_dataset
     = Inr ([], neighbour_s3\<lparr>get_object_calls := [(''bucket'', ''out/S2A_30TXM_20210101_0_L2A.json'')]\<rparr>)"
proof -
  have a: "objects neighbour_s3 (''bucket'', ''out/S2A_30TWM_20210101_0_L2A.json'') = None"
    and b: "objects neighbour_s3 (''bucket'', ''out/S2A_30TXM_20210101_0_L2A.json'') = Some (JsonDoc neighbour_doc)"
    and c: "get_object_calls neighbour_s3 = []"
    by (simp_all add: neighbour_s3_def)
  show ?thesis
    by (simp add: residual_aoi_def example_names example_candidate reconcile_step_def
        exist_s3_path_def example_paths Let_def get_object_def a b c example_neighbour_step)
qed

lemma example_half_step:
  "json_loads (JsonDoc half_neighbour_doc) = Inr half_neighbour_doc"
  "doc_land_use half_neighbour_doc = Some \<lparr>json_urban_pixels = 8, json_valid_urban_pixels = 4,
                            json_urban_cover = 50, json_aoi_extent = [13, 10, 18, 14]\<rparr>"
  "Intersects [Box 12 10 14 14] (create_geometry_from_bbox 13 10 18 14)"
  "Difference [Box 12 10 14 14] (create_geometry_from_bbox 13 10 18 14) = [Box 12 10 13 14]"
  by (simp add: json_loads_def, simp add: half_neighbour_doc_def, code_simp, code_simp)

lemma example_reconcile_half:
  "reconcile (OUTPUT_S3_FOLDER example_env) (msg_id example_message) [''30TWM'', ''30TXM'']
       ([Box 12 10 14 14], half_neighbour_s3)
     = Inr ([Box 12 10 13 14],
            half_neighbour_s3\<lparr>get_object_calls := [(''bucket'', ''out/S2A_30TXM_20210101_0_L2A.json'')]\<rparr>)"
proof -
  have a: "objects half_neighbour_s3 (''bucket'', ''out/S2A_30TWM_20210101_0_L2A.json'') = None"
    and b: "objects half_neighbour_s3 (''bucket'', ''out/S2A_30TXM_20210101_0_L2A.json'')
              = Some (JsonDoc half_neighbour_doc)"
    and c: "get_object_calls half_neighbour_s3 = []"
    by (simp_all add: half_neighbour_s3_def)
  have s1: "reconcile_step (OUTPUT_S3_FOLDER example_env) (msg_id example_message) ''30TWM''
       ([Box 12 10 14 14], half_neighbour_s3) = Inr ([Box 12 10 14 14], half_neighbour_s3)"
    by (simp add: example_names reconcile_step_def exist_s3_path_def example_paths Let_def a)
  have s2: "reconcile_step (OUTPUT_S3_FOLDER example_env) (msg_id example_message) ''30TXM''
       ([Box 12 10 14 14], half_neighbour_s3) = Inr ([Box 12 10 13 14],
            half_neighbour_s3\<lparr>get_object_calls := [(''bucket'', ''out/S2A_30TXM_20210101_0_L2A.json'')]\<rparr>)"
    by (simp add: example_names reconcile_step_def exist_s3_path_def example_paths Let_def
        get_object_def a b c example_half_step)
  show ?thesis
    by (simp add: s1 s2)
qed

lemma example_residual_half:
  "residual_aoi example_env half_neighbour_s3 (msg_id example_message)
       example_cm_dataset example_lu_dataset
     = Inr ([Box 12 10 13 14],
            half_neighbour_s3\<lparr>get_object_calls := [(''bucket'', ''out/S2A_30TXM_20210101_0_L2A.json'')]\<rparr>)"
  by (simp add: residual_aoi_def example_names example_candidate example_reconcile_half Let_def
      del: reconcile.simps)

lemma example_clamp:
  "clamp_aoi_extent [Box 12 10 14 14] (12, 10, 16, 14) = (12, 10, 14, 14)"
  "clamp_aoi_extent [] (12, 10, 16, 14) = (12, 10, 0, 0)"
  by code_simp+

lemma example_statistics:
  "aoi_statistics inside_services (Transform inside_services (msg_geometry example_message))
     example_cm_dataset example_lu_dataset (12, 10, 14, 14) = Inr (8, 4, 50)"
  "aoi_statistics outside_services (Transform outside_services (msg_geometry example_message))
     example_cm_dataset example_lu_dataset (12, 10, 14, 14) = Inl ZeroDivisionError"
  "aoi_statistics inside_services (Transform inside_services (msg_geometry example_message))
     example_cm_dataset example_lu_dataset (12, 10, 0, 0) = Inl ValueError"
  by code_simp+

lemma example_open_inside:
  "open_datasets example_env inside_services example_message
     = Inr (example_cm_dataset, example_lu_dataset)"
  by (rule example_open_datasets) (simp add: inside_services_def)

lemma example_run:
  "lambda_handler example_env inside_services empty_s3 example_message
     = Inr (\<lparr>statusCode = 200, body = json_dumps ''OK''\<rparr>,
            upload_file empty_s3 example_doc ''bucket'' ''out/S2A_30TWM_20210101_0_L2A.json'')"
proof -
  have p: "process_aoi example_env inside_services example_message example_cm_dataset
             example_lu_dataset ([Box 12 10 14 14], empty_s3)
           = Inr (\<lparr>statusCode = 200, body = json_dumps ''OK''\<rparr>,
                  upload_file empty_s3 example_doc ''bucket'' ''out/S2A_30TWM_20210101_0_L2A.json'')"
    by (simp add: process_aoi_def example_candidate example_clamp example_statistics
        example_names example_paths Let_def extent_list_def example_doc_def)
  show ?thesis
    by (simp add: lambda_handler_def example_open_inside example_candidate
        example_residual_empty_bucket p Let_def)
qed

subsection \<open>The statistics step\<close>

text \<open>
  C2 (as amended). For the 4 by 4 cloud-mask window
  \<open>[[4,4,1,1],[4,4,1,1],[2,2,2,2],[2,2,2,2]]\<close> with allowed cloud codes \<open>{2, 4}\<close>, a
  land-use window of zeros with allowed urban codes \<open>{0, 5}\<close> and a footprint mask over
  the whole grid, the statistics step gives \<open>urban_pixel_count = 16\<close>,
  \<open>valid_urban_pixel_count = 12\<close> and \<open>urban_cover_percent = 75\<close>: the four pixels of
  class 1 are urban and not cloud-free.
\<close>

theorem example_statistics_step:
  "statistics_step example_cm_window example_lu_window [2, 4] [0, 5] example_full_mask
     = Inr (16, 12, 75)"
  by code_simp

text \<open>C2 as stated (16 valid urban pixels, a cover of 100) is not what the step computes.\<close>

theorem example_statistics_step_counterexample:
  "statistics_step example_cm_window example_lu_window [2, 4] [0, 5] example_full_mask
     \<noteq> Inr (16, 16, 100)"
  by code_simp

text \<open>The cover is only ever returned with a positive number of urban pixels.\<close>

lemma urban_statistics_positive:
  assumes "urban_statistics rs_raster gm_raster = Inr (u, v, c)"
  shows "0 < u \<and> c = (100 * of_nat v) / of_nat u"
  using assms by (auto simp: urban_statistics_def Let_def split: sum.splits if_splits)

lemma urban_statistics_zero_count:
  assumes "assign_masked rs_raster (logical_not (eq_scalar gm_raster 1)) 0 = Inr rs"
    and "count_nonzero (gt_scalar rs 0) = 0"
  shows "urban_statistics rs_raster gm_raster = Inl ZeroDivisionError"
  using assms by (simp add: urban_statistics_def Let_def)

text \<open>
  C1. The division of line 240 has no guard: the example invocation with a footprint that
  burns no pixel of the AOI window reaches the statistics with no urban pixel, and the
  handler raises \<^verbatim>\<open>ZeroDivisionError\<close> instead of reporting a cover.
\<close>

theorem zero_urban_pixels_raise:
  "lambda_handler example_env outside_services empty_s3 example_message = Inl ZeroDivisionError"
proof -
  have o: "open_datasets example_env outside_services example_message
             = Inr (example_cm_dataset, example_lu_dataset)"
    by (rule example_open_datasets) (simp add: outside_services_def)
  have p: "process_aoi example_env outside_services example_message example_cm_dataset
             example_lu_dataset ([Box 12 10 14 14], empty_s3) = Inl ZeroDivisionError"
    by (simp add: process_aoi_def example_candidate example_clamp example_statistics Let_def)
  show ?thesis
    by (simp add: lambda_handler_def o example_candidate example_residual_empty_bucket p Let_def)
qed

subsection \<open>The stored extent\<close>

lemma process_aoi_stores_cm_extent:
  assumes "process_aoi env svc message_obj cm_dataset lu_dataset (aoi_geometry, s3) = Inr (resp, s3')"
  shows "\<exists>bucket_name prefix_path lu.
           parse_s3_path (os_path_join (OUTPUT_S3_FOLDER env) (msg_id message_obj @ ''.json''))
             = Inr (bucket_name, prefix_path)
         \<and> objects s3' (bucket_name, prefix_path)
             = Some (JsonDoc \<lparr>doc_message = message_obj, doc_land_use = Some lu\<rparr>)
         \<and> json_aoi_extent lu = extent_list (get_envelope cm_dataset)"
  using assms
  by (auto simp: process_aoi_def Let_def upload_file_def split: sum.splits prod.splits)

text \<open>
  C3 (as amended). For every invocation that ends with the normal result \<^verbatim>\<open>OK\<close>, the
  document written under the item's own name is the message with a \<^verbatim>\<open>land_use\<close> object
  whose \<^verbatim>\<open>aoi_extent\<close> is the envelope of the cloud-mask dataset, whatever the residual
  AOI is.
\<close>

theorem stored_extent_is_cloud_mask_envelope:
  assumes o: "open_datasets env svc message_obj = Inr (cm_dataset, lu_dataset)"
    and h: "lambda_handler env svc s3 message_obj = Inr (resp, s3')"
    and b: "body resp = json_dumps ''OK''"
  shows "\<exists>bucket_name prefix_path lu.
           parse_s3_path (os_path_join (OUTPUT_S3_FOLDER env) (msg_id message_obj @ ''.json''))
             = Inr (bucket_name, prefix_path)
         \<and> objects s3' (bucket_name, prefix_path)
             = Some (JsonDoc \<lparr>doc_message = message_obj, doc_land_use = Some lu\<rparr>)
         \<and> json_aoi_extent lu = extent_list (get_envelope cm_dataset)"
proof -
  from h o b obtain st where
    p: "process_aoi env svc message_obj cm_dataset lu_dataset st = Inr (resp, s3')"
    by (auto simp: lambda_handler_def Let_def json_dumps_def split: sum.splits if_splits)
  obtain aoi_geometry s3a where "st = (aoi_geometry, s3a)" by (cases st)
  with p have "process_aoi env svc message_obj cm_dataset lu_dataset (aoi_geometry, s3a)
                 = Inr (resp, s3')" by simp
  then show ?thesis by (rule process_aoi_stores_cm_extent)
qed

text \<open>The theorem at the example invocation with an empty bucket.\<close>

theorem stored_extent_is_cloud_mask_envelope_witness:
  "\<exists>bucket_name prefix_path lu.
     parse_s3_path (os_path_join (OUTPUT_S3_FOLDER example_env) (msg_id example_message @ ''.json''))
       = Inr (bucket_name, prefix_path)
   \<and> objects (upload_file empty_s3 example_doc ''bucket'' ''out/S2A_30TWM_20210101_0_L2A.json'')
         (bucket_name, prefix_path)
       = Some (JsonDoc \<lparr>doc_message = example_message, doc_land_use = Some lu\<rparr>)
   \<and> json_aoi_extent lu = extent_list (get_envelope example_cm_dataset)"
  by (rule stored_extent_is_cloud_mask_envelope [OF example_open_inside example_run]) simp

text \<open>
  C3 as stated fails at the example invocation: the residual AOI is
  \<open>[12, 14] \<times> [10, 14]\<close> and its clamped extent is \<open>[12, 10, 14, 14]\<close>, while the stored
  \<^verbatim>\<open>aoi_extent\<close> is the extent of the cloud mask, \<open>[10, 10, 14, 14]\<close>.
\<close>

theorem stored_extent_counterexample:
  "lambda_handler example_env inside_services empty_s3 example_message
     = Inr (\<lparr>statusCode = 200, body = json_dumps ''OK''\<rparr>,
            upload_file empty_s3 example_doc ''bucket'' ''out/S2A_30TWM_20210101_0_L2A.json'')
   \<and> map_option json_aoi_extent (doc_land_use example_doc) = Some [10, 10, 14, 14]
   \<and> residual_aoi example_env empty_s3 (msg_id example_message) example_cm_dataset example_lu_dataset
       = Inr ([Box 12 10 14 14], empty_s3)
   \<and> extent_list (clamp_aoi_extent [Box 12 10 14 14] (get_envelope example_lu_dataset))
       = [12, 10, 14, 14]"
proof -
  have d: "map_option json_aoi_extent (doc_land_use example_doc) = Some [10, 10, 14, 14]"
    by (simp add: example_doc_def)
  have c: "extent_list (clamp_aoi_extent [Box 12 10 14 14] (get_envelope example_lu_dataset))
       = [12, 10, 14, 14]"
    by (simp add: example_candidate example_clamp extent_list_def)
  from example_run d example_residual_empty_bucket c show ?thesis by blast
qed

subsection \<open>The loop over the grid names\<close>

lemma reconcile_append:
  "reconcile output_folder item_id (xs @ ys) st =
     (case reconcile output_folder item_id xs st of
        Inl e \<Rightarrow> Inl e
      | Inr st' \<Rightarrow> reconcile output_folder item_id ys st')"
  by (induction xs arbitrary: st) (auto split: sum.splits)

lemma reconcile_step_own:
  assumes "item_name_of item_id grid_name = item_id"
  shows "reconcile_step output_folder item_id grid_name st = Inr st
       \<or> (\<exists>e. reconcile_step output_folder item_id grid_name st = Inl e)"
  using assms by (cases st) (simp add: reconcile_step_def Let_def split: sum.splits)

lemma reconcile_skips_own:
  assumes "reconcile output_folder item_id grid_names st = Inr st'"
  shows "reconcile output_folder item_id
           (filter (\<lambda>g. item_name_of item_id g \<noteq> item_id) grid_names) st = Inr st'"
  using assms
proof (induction grid_names arbitrary: st)
  case Nil
  then show ?case by simp
next
  case (Cons g gs)
  from Cons.prems obtain st1 where
    s: "reconcile_step output_folder item_id g st = Inr st1"
    and r: "reconcile output_folder item_id gs st1 = Inr st'"
    by (auto split: sum.splits)
  show ?case
  proof (cases "item_name_of item_id g = item_id")
    case True
    with s reconcile_step_own [OF True, of output_folder st] have "st1 = st" by auto
    with r Cons.IH True show ?thesis by simp
  next
    case False
    with s r Cons.IH show ?thesis by simp
  qed
qed

text \<open>Every \<^verbatim>\<open>get_object\<close> call of the loop is for the path of a name that is not the item's own.\<close>

lemma reconcile_step_calls:
  assumes "reconcile_step output_folder item_id g (aoi, s3) = Inr (aoi', s3')"
  shows "get_object_calls s3' = get_object_calls s3
       \<or> (\<exists>k. get_object_calls s3' = k # get_object_calls s3 \<and> item_name_of item_id g \<noteq> item_id
              \<and> parse_s3_path (os_path_join output_folder (item_name_of item_id g @ ''.json'')) = Inr k)"
  using assms
  by (auto simp: reconcile_step_def Let_def get_object_def
      split: sum.splits if_splits bool.splits option.splits prod.splits)

lemma reconcile_calls:
  assumes "reconcile output_folder item_id grid_names (aoi, s3) = Inr (aoi', s3')"
    and "k \<in> set (get_object_calls s3')" and "k \<notin> set (get_object_calls s3)"
  shows "\<exists>g \<in> set grid_names. item_name_of item_id g \<noteq> item_id
           \<and> parse_s3_path (os_path_join output_folder (item_name_of item_id g @ ''.json'')) = Inr k"
  using assms
proof (induction grid_names arbitrary: aoi s3)
  case Nil
  then show ?case by simp
next
  case (Cons g gs)
  from Cons.prems(1) obtain aoi1 s31 where
    s: "reconcile_step output_folder item_id g (aoi, s3) = Inr (aoi1, s31)"
    and r: "reconcile output_folder item_id gs (aoi1, s31) = Inr (aoi', s3')"
    by (auto split: sum.splits)
  show ?case
  proof (cases "k \<in> set (get_object_calls s31)")
    case True
    with reconcile_step_calls [OF s] Cons.prems(3) show ?thesis by auto
  next
    case False
    from Cons.IH [OF r Cons.prems(2) False] show ?thesis by auto
  qed
qed

text \<open>
  C5. A grid name whose derived item name is the item's own identifier is never treated
  as a neighbour: its iteration either raises (the existence check of line 153 on a
  malformed path) or leaves the running AOI and the S3 client, with its record of
  \<^verbatim>\<open>get_object\<close> calls, as they were, whatever the bucket holds; so a loop that succeeds gives
  the same AOI and makes the same fetches as the loop over the other names alone, and every
  fetch it makes is for the path of a name that differs from the item's own.
\<close>

theorem own_tile_never_a_neighbour:
  assumes "reconcile output_folder item_id grid_names (aoi_geometry, s3) = Inr (aoi', s3')"
  shows "reconcile output_folder item_id
           (filter (\<lambda>g. item_name_of item_id g \<noteq> item_id) grid_names) (aoi_geometry, s3)
           = Inr (aoi', s3')
       \<and> (\<forall>g st. item_name_of item_id g = item_id \<longrightarrow>
             reconcile_step output_folder item_id g st = Inr st
             \<or> (\<exists>e. reconcile_step output_folder item_id g st = Inl e))
       \<and> (\<forall>k \<in> set (get_object_calls s3') - set (get_object_calls s3).
             \<exists>g \<in> set grid_names. item_name_of item_id g \<noteq> item_id
               \<and> parse_s3_path (os_path_join output_folder (item_name_of item_id g @ ''.json'')) = Inr k)"
proof (intro conjI allI impI ballI)
  show "reconcile output_folder item_id
           (filter (\<lambda>g. item_name_of item_id g \<noteq> item_id) grid_names) (aoi_geometry, s3)
           = Inr (aoi', s3')"
    by (rule reconcile_skips_own [OF assms])
next
  fix g st assume "item_name_of item_id g = item_id"
  then show "reconcile_step output_folder item_id g st = Inr st
             \<or> (\<exists>e. reconcile_step output_folder item_id g st = Inl e)"
    by (rule reconcile_step_own)
next
  fix k assume "k \<in> set (get_object_calls s3') - set (get_object_calls s3)"
  then have "k \<in> set (get_object_calls s3')" "k \<notin> set (get_object_calls s3)" by simp_all
  from reconcile_calls [OF assms this]
  show "\<exists>g \<in> set grid_names. item_name_of item_id g \<noteq> item_id
               \<and> parse_s3_path (os_path_join output_folder (item_name_of item_id g @ ''.json'')) = Inr k" .
qed


text \<open>The theorem at the example invocation, whose bucket holds the result of the neighbour 30TXM.\<close>

theorem own_tile_never_a_neighbour_witness:
  "reconcile (OUTPUT_S3_FOLDER example_env) (msg_id example_message)
       (filter (\<lambda>g. item_name_of (msg_id example_message) g \<noteq> msg_id example_message)
          [''30TWM'', ''30TXM''])
       ([Box 12 10 14 14], half_neighbour_s3)
     = Inr ([Box 12 10 13 14],
            half_neighbour_s3\<lparr>get_object_calls := [(''bucket'', ''out/S2A_30TXM_20210101_0_L2A.json'')]\<rparr>)
   \<and> item_name_of (msg_id example_message) ''30TWM'' = msg_id example_message"
  using own_tile_never_a_neighbour [OF example_reconcile_half] example_names(5) by blast

subsection \<open>Geometry: what the operations do to the points\<close>

lemma points_Nil: "points [] = {}"
  by (simp add: points_def)

lemma points_Cons: "points (r # g) = box_points r \<union> points g"
  by (simp add: points_def)

lemma points_append: "points (g @ h) = points g \<union> points h"
  by (simp add: points_def)

lemma points_concat_map: "points (concat (map f g)) = (\<Union>r \<in> set g. points (f r))"
  by (induction g) (simp_all add: points_Nil points_append)

lemma box_within_points: "box_within r' r \<Longrightarrow> box_points r' \<subseteq> box_points r"
  by (cases r'; cases r) auto

text \<open>Every part of a difference of boxes lies within the minuend.\<close>

lemma box_minus_within:
  assumes "r' \<in> set (box_minus r s)"
  shows "box_within r' r"
proof (cases r; cases s)
  fix x0 y0 x1 y1 a0 b0 a1 b1
  assume r: "r = Box x0 y0 x1 y1" and s: "s = Box a0 b0 a1 b1"
  from assms show ?thesis
    unfolding r s by (auto split: if_splits)
qed

lemma box_minus_subset: "points (box_minus r s) \<subseteq> box_points r"
  using box_minus_within box_within_points by (fastforce simp: points_def)

text \<open>A difference of boxes keeps every point of the minuend outside the subtrahend.\<close>

lemma box_minus_keeps_outside: "box_points r - box_points s \<subseteq> points (box_minus r s)"
proof (cases r; cases s)
  fix x0 y0 x1 y1 a0 b0 a1 b1
  assume r: "r = Box x0 y0 x1 y1" and s: "s = Box a0 b0 a1 b1"
  show ?thesis
  proof
    fix p assume p: "p \<in> box_points r - box_points s"
    obtain x y where xy: "p = (x, y)" by (cases p)
    from p have inr: "x0 \<le> x" "x \<le> x1" "y0 \<le> y" "y \<le> y1"
      and out: "\<not> (a0 \<le> x \<and> x \<le> a1 \<and> b0 \<le> y \<and> y \<le> b1)"
      unfolding r s xy by auto
    from inr have valid: "\<not> (x1 < x0 \<or> y1 < y0)" by auto
    show "p \<in> points (box_minus r s)"
    proof (cases "a1 < a0 \<or> b1 < b0")
      case True
      with valid inr show ?thesis unfolding r s xy by (simp add: points_Cons points_Nil)
    next
      case False
      consider (left) "x < a0" | (right) "a1 < x" | (below) "a0 \<le> x" "x \<le> a1" "y < b0"
        | (above) "a0 \<le> x" "x \<le> a1" "b1 < y"
        using out by fastforce
      then show ?thesis
      proof cases
        case left
        with valid False inr show ?thesis
          unfolding r s xy by (simp add: points_Cons points_Nil points_append)
      next
        case right
        with valid False inr show ?thesis
          unfolding r s xy by (simp add: points_Cons points_Nil points_append)
      next
        case below
        with valid False inr show ?thesis
          unfolding r s xy by (simp add: points_Cons points_Nil points_append)
      next
        case above
        with valid False inr show ?thesis
          unfolding r s xy by (simp add: points_Cons points_Nil points_append)
      qed
    qed
  qed
qed

lemma minus_box_subset: "points (concat (map (\<lambda>r. box_minus r s) g)) \<subseteq> points g"
proof -
  have "(\<Union>r \<in> set g. points (box_minus r s)) \<subseteq> (\<Union>r \<in> set g. box_points r)"
    using box_minus_subset by blast
  then show ?thesis by (simp add: points_concat_map points_def)
qed

lemma Difference_subset: "points (Difference g h) \<subseteq> points g"
  unfolding Difference_def
proof (induction h arbitrary: g)
  case Nil
  then show ?case by simp
next
  case (Cons s h)
  have "points (fold (\<lambda>s acc. concat (map (\<lambda>r. box_minus r s) acc)) h
                  (concat (map (\<lambda>r. box_minus r s) g)))
          \<subseteq> points (concat (map (\<lambda>r. box_minus r s) g))"
    by (rule Cons.IH)
  also have "\<dots> \<subseteq> points g" by (rule minus_box_subset)
  finally show ?case by simp
qed

lemma box_inter_points: "box_points (box_inter r s) = box_points r \<inter> box_points s"
  by (cases r; cases s) auto

lemma boxes_meet_iff: "boxes_meet r s \<longleftrightarrow> box_points r \<inter> box_points s \<noteq> {}"
proof (cases r; cases s)
  fix x0 y0 x1 y1 a0 b0 a1 b1
  assume r: "r = Box x0 y0 x1 y1" and s: "s = Box a0 b0 a1 b1"
  show ?thesis
  proof
    assume "boxes_meet r s"
    then have "(max x0 a0, max y0 b0) \<in> box_points r \<inter> box_points s"
      using r s by auto
    then show "box_points r \<inter> box_points s \<noteq> {}" by blast
  next
    assume "box_points r \<inter> box_points s \<noteq> {}"
    then obtain x y where "(x, y) \<in> box_points r \<inter> box_points s" by auto
    then show "boxes_meet r s" using r s by auto
  qed
qed

lemma Intersects_iff: "Intersects g h \<longleftrightarrow> points g \<inter> points h \<noteq> {}"
  by (auto simp: Intersects_def list_ex_iff points_def boxes_meet_iff)

lemma Intersection_points: "points (Intersection g h) = points g \<inter> points h"
  by (auto simp: Intersection_def points_def box_inter_points boxes_meet_iff)

subsection \<open>The residual AOI stays inside the candidate AOI\<close>

lemma subtract_neighbor_subset: "points (subtract_neighbor g h) \<subseteq> points g"
  by (simp add: subtract_neighbor_def Difference_subset)

lemma reconcile_step_subset:
  assumes "reconcile_step output_folder item_id grid_name (aoi, s3) = Inr (aoi', s3')"
  shows "points aoi' \<subseteq> points aoi"
  using assms Difference_subset
  by (auto simp: reconcile_step_def Let_def
      split: sum.splits if_splits bool.splits option.splits prod.splits)

lemma reconcile_subset:
  assumes "reconcile output_folder item_id grid_names (aoi, s3) = Inr (aoi', s3')"
  shows "points aoi' \<subseteq> points aoi"
  using assms
proof (induction grid_names arbitrary: aoi s3)
  case Nil
  then show ?case by simp
next
  case (Cons g gs)
  from Cons.prems obtain aoi1 s31 where
    s: "reconcile_step output_folder item_id g (aoi, s3) = Inr (aoi1, s31)"
    and r: "reconcile output_folder item_id gs (aoi1, s31) = Inr (aoi', s3')"
    by (auto split: sum.splits)
  from Cons.IH [OF r] reconcile_step_subset [OF s] show ?case by blast
qed

lemma reconcile_prefix:
  assumes "reconcile output_folder item_id grid_names (aoi, s3) = Inr (aoi', s3')"
  shows "\<exists>g s. reconcile output_folder item_id (take k grid_names) (aoi, s3) = Inr (g, s)
               \<and> points aoi' \<subseteq> points g \<and> points g \<subseteq> points aoi"
proof -
  have "reconcile output_folder item_id (take k grid_names @ drop k grid_names) (aoi, s3)
          = Inr (aoi', s3')"
    using assms by simp
  then obtain g s where
    p: "reconcile output_folder item_id (take k grid_names) (aoi, s3) = Inr (g, s)"
    and d: "reconcile output_folder item_id (drop k grid_names) (g, s) = Inr (aoi', s3')"
    unfolding reconcile_append by (auto split: sum.splits)
  from reconcile_subset [OF p] reconcile_subset [OF d] p show ?thesis by blast
qed

text \<open>
  C6. The running AOI of the reconciliation stays inside the candidate AOI, the
  intersection of the envelope polygon of the cloud mask and that of the land-use
  dataset: where the loop succeeds, the residual AOI is contained in it, the loop over
  every prefix of the grid names succeeds too, and the running AOI after each prefix lies
  between the residual AOI and the candidate (the AOI only shrinks). The residual may be
  empty (no part) or have several parts.
\<close>

theorem residual_within_candidate:
  assumes "residual_aoi env s3 item_id cm_dataset lu_dataset = Inr (aoi', s3')"
  shows "points aoi' \<subseteq> points (Intersection (extent_geometry (get_envelope cm_dataset))
                                            (extent_geometry (get_envelope lu_dataset)))
       \<and> (\<forall>k. \<exists>g s. reconcile (OUTPUT_S3_FOLDER env) item_id
                        (take k (py_split_char CHR '','' (S2L2A_TILES env)))
                        (Intersection (extent_geometry (get_envelope cm_dataset))
                                      (extent_geometry (get_envelope lu_dataset)), s3) = Inr (g, s)
                \<and> points aoi' \<subseteq> points g
                \<and> points g \<subseteq> points (Intersection (extent_geometry (get_envelope cm_dataset))
                                                    (extent_geometry (get_envelope lu_dataset))))"
  using assms reconcile_subset reconcile_prefix
  by (simp add: residual_aoi_def Let_def)

text \<open>The theorem at the same invocation: the residual AOI is the western half of the candidate.\<close>

theorem residual_within_candidate_witness:
  "points [Box 12 10 13 14]
     \<subseteq> points (Intersection (extent_geometry (get_envelope example_cm_dataset))
                             (extent_geometry (get_envelope example_lu_dataset)))"
  using residual_within_candidate [OF example_residual_half] by blast

subsection \<open>The area that stays does not depend on the order of the neighbours\<close>

lemma box_area_len: "box_area (Box x0 y0 x1 y1) = len x0 x1 * len y0 y1"
  by (simp add: len_def)

lemma len_empty: "hi \<le> lo \<Longrightarrow> len lo hi = 0"
  by (simp add: len_def)

text \<open>An interval cut at a0 and a1, seen through a window [c0, c1].\<close>

lemma cut_left_mid_right:
  assumes "x0 \<le> x1" and "a0 \<le> a1"
  shows "(if x0 < a0 then len (max x0 c0) (min (min x1 a0) c1) else 0)
       + len (max (max x0 a0) c0) (min (min x1 a1) c1)
       + (if a1 < x1 then len (max (max x0 a1) c0) (min x1 c1) else 0)
       = len (max x0 c0) (min x1 c1)"
proof (cases "x0 < a0")
  case l: True
  show ?thesis
  proof (cases "a1 < x1")
    case True
    with l assms show ?thesis by (simp add: len_def max_def min_def)
  next
    case False
    with l assms show ?thesis by (simp add: len_def max_def min_def)
  qed
next
  case l: False
  show ?thesis
  proof (cases "a1 < x1")
    case True
    with l assms show ?thesis by (simp add: len_def max_def min_def)
  next
    case False
    with l assms show ?thesis by (simp add: len_def max_def min_def)
  qed
qed


lemma len_commute:
  "len (max (max x0 c0) a0) (min (min x1 c1) a1) = len (max (max x0 a0) c0) (min (min x1 a1) c1)"
  by (simp add: max.assoc max.commute max.left_commute min.assoc min.commute min.left_commute)

lemma strips_area:
  fixes L M R X B N T Y :: rat
  assumes "L + M + R = X" and "B + N + T = Y"
  shows "L * Y + R * Y + M * B + M * T = X * Y - M * N"
proof -
  have "X * Y = (L + M + R) * (B + N + T)" using assms by simp
  also have "\<dots> = L * (B + N + T) + R * (B + N + T) + M * B + M * T + M * N"
    by (simp add: algebra_simps)
  also have "\<dots> = L * Y + R * Y + M * B + M * T + M * N" using assms by simp
  finally show ?thesis by simp
qed

lemma area_in_box_minus:
  assumes sx: "a0 \<le> a1" and sy: "b0 \<le> b1"
  shows "area_in (Box c0 d0 c1 d1) (box_minus (Box x0 y0 x1 y1) (Box a0 b0 a1 b1))
       = box_area (box_inter (Box x0 y0 x1 y1) (Box c0 d0 c1 d1))
       - box_area (box_inter (box_inter (Box x0 y0 x1 y1) (Box c0 d0 c1 d1)) (Box a0 b0 a1 b1))"
proof (cases "x1 < x0 \<or> y1 < y0")
  case True
  then consider (x) "x1 < x0" | (y) "y1 < y0" by blast
  then have zero: "len (max x0 c0) (min x1 c1) * len (max y0 d0) (min y1 d1) = 0
      \<and> len (max (max x0 c0) a0) (min (min x1 c1) a1)
          * len (max (max y0 d0) b0) (min (min y1 d1) b1) = 0"
  proof cases
    case x
    have "len (max x0 c0) (min x1 c1) = 0"
      using x by (intro len_empty) (simp add: min_le_iff_disj le_max_iff_disj)
    moreover have "len (max (max x0 c0) a0) (min (min x1 c1) a1) = 0"
      using x by (intro len_empty) (simp add: min_le_iff_disj le_max_iff_disj)
    ultimately show ?thesis by simp
  next
    case y
    have "len (max y0 d0) (min y1 d1) = 0"
      using y by (intro len_empty) (simp add: min_le_iff_disj le_max_iff_disj)
    moreover have "len (max (max y0 d0) b0) (min (min y1 d1) b1) = 0"
      using y by (intro len_empty) (simp add: min_le_iff_disj le_max_iff_disj)
    ultimately show ?thesis by simp
  qed
  have e: "box_minus (Box x0 y0 x1 y1) (Box a0 b0 a1 b1) = []" using True by simp
  have z1: "box_area (box_inter (Box x0 y0 x1 y1) (Box c0 d0 c1 d1)) = 0"
    using conjunct1 [OF zero] by (simp only: box_inter.simps box_area_len)
  have z2: "box_area (box_inter (box_inter (Box x0 y0 x1 y1) (Box c0 d0 c1 d1))
              (Box a0 b0 a1 b1)) = 0"
    using conjunct2 [OF zero] by (simp only: box_inter.simps box_area_len)
  show ?thesis unfolding e z1 z2 by (simp add: area_in_def)
next
  case False
  then have rx: "x0 \<le> x1" and ry: "y0 \<le> y1" by simp_all
  define L where "L = (if x0 < a0 then len (max x0 c0) (min (min x1 a0) c1) else 0)"
  define M where "M = len (max (max x0 a0) c0) (min (min x1 a1) c1)"
  define R where "R = (if a1 < x1 then len (max (max x0 a1) c0) (min x1 c1) else 0)"
  define X where "X = len (max x0 c0) (min x1 c1)"
  define B where "B = (if y0 < b0 then len (max y0 d0) (min (min y1 b0) d1) else 0)"
  define N where "N = len (max (max y0 b0) d0) (min (min y1 b1) d1)"
  define T where "T = (if b1 < y1 then len (max (max y0 b1) d0) (min y1 d1) else 0)"
  define Y where "Y = len (max y0 d0) (min y1 d1)"
  have x: "L + M + R = X"
    unfolding L_def M_def R_def X_def by (rule cut_left_mid_right [OF rx sx])
  have y: "B + N + T = Y"
    unfolding B_def N_def T_def Y_def by (rule cut_left_mid_right [OF ry sy])
  have mid: "M = 0" if "\<not> max x0 a0 \<le> min x1 a1"
    using that unfolding M_def by (auto simp: len_def)
  have lhs: "area_in (Box c0 d0 c1 d1) (box_minus (Box x0 y0 x1 y1) (Box a0 b0 a1 b1))
               = L * Y + R * Y + M * B + M * T"
    using False sx sy mid
    by (auto simp: area_in_def box_area_len L_def M_def R_def B_def T_def Y_def
        simp del: box_area.simps)
  have r1: "box_area (box_inter (Box x0 y0 x1 y1) (Box c0 d0 c1 d1)) = X * Y"
    by (simp add: box_area_len X_def Y_def del: box_area.simps)
  have r2: "box_area (box_inter (box_inter (Box x0 y0 x1 y1) (Box c0 d0 c1 d1)) (Box a0 b0 a1 b1))
              = M * N"
    by (simp add: box_area_len M_def N_def len_commute del: box_area.simps)
  show ?thesis
    unfolding lhs r1 r2 by (rule strips_area [OF x y])
qed


lemma box_inter_self: "box_inter r r = r"
  by (cases r) simp

lemma box_inter_within: "box_within r' c \<Longrightarrow> box_inter r' c = r'"
  by (cases r'; cases c) (simp add: max_def min_def)

lemma box_inter_assoc: "box_inter (box_inter r c) s = box_inter r (box_inter c s)"
  by (cases r; cases c; cases s) (simp add: max.assoc min.assoc)

lemma box_inter_commute: "box_inter r s = box_inter s r"
  by (cases r; cases s) (simp add: max.commute min.commute)

lemma area_in_Nil: "area_in c [] = 0"
  by (simp add: area_in_def)

lemma area_in_append: "area_in c (g @ h) = area_in c g + area_in c h"
  by (simp add: area_in_def)

lemma area_in_Cons: "area_in c (r # g) = box_area (box_inter r c) + area_in c g"
  by (simp add: area_in_def)

lemma GetArea_append: "GetArea (g @ h) = GetArea g + GetArea h"
  by (simp add: GetArea_def)

lemma area_in_within:
  assumes "\<forall>r' \<in> set g. box_within r' c"
  shows "area_in c g = GetArea g"
  using assms by (induction g) (simp_all add: area_in_def GetArea_def box_inter_within)

lemma area_in_box_minus':
  assumes "box_valid s"
  shows "area_in c (box_minus r s)
       = box_area (box_inter r c) - box_area (box_inter r (box_inter c s))"
proof (cases r; cases s; cases c)
  fix x0 y0 x1 y1 a0 b0 a1 b1 c0 d0 c1 d1
  assume r: "r = Box x0 y0 x1 y1" and s: "s = Box a0 b0 a1 b1" and c: "c = Box c0 d0 c1 d1"
  from assms have "a0 \<le> a1" "b0 \<le> b1" unfolding s by simp_all
  from area_in_box_minus [OF this, of c0 d0 c1 d1 x0 y0 x1 y1]
  show ?thesis unfolding r s c box_inter_assoc .
qed

lemma GetArea_box_minus:
  assumes "box_valid s"
  shows "GetArea (box_minus r s) = box_area r - box_area (box_inter r s)"
proof -
  have "\<forall>r' \<in> set (box_minus r s). box_within r' r"
    using box_minus_within by blast
  then have "GetArea (box_minus r s) = area_in r (box_minus r s)"
    by (simp add: area_in_within)
  also have "\<dots> = box_area (box_inter r r) - box_area (box_inter r (box_inter r s))"
    by (rule area_in_box_minus' [OF assms])
  also have "\<dots> = box_area r - box_area (box_inter r s)"
    by (simp only: box_inter_self box_inter_assoc [symmetric])
  finally show ?thesis .
qed

lemma area_in_minus_box:
  assumes "box_valid s"
  shows "area_in c (concat (map (\<lambda>r. box_minus r s) g)) = area_in c g - area_in (box_inter c s) g"
  by (induction g)
    (simp_all add: area_in_Nil area_in_append area_in_Cons area_in_box_minus' [OF assms])

lemma GetArea_minus_box:
  assumes "box_valid s"
  shows "GetArea (concat (map (\<lambda>r. box_minus r s) g)) = GetArea g - area_in s g"
proof (induction g)
  case Nil
  then show ?case by (simp add: GetArea_def area_in_Nil)
next
  case (Cons r g)
  have "GetArea (concat (map (\<lambda>r. box_minus r s) (r # g)))
          = GetArea (box_minus r s) + GetArea (concat (map (\<lambda>r. box_minus r s) g))"
    by (simp add: GetArea_append)
  also have "\<dots> = (box_area r - box_area (box_inter r s)) + (GetArea g - area_in s g)"
    by (simp only: GetArea_box_minus [OF assms] Cons.IH)
  also have "\<dots> = GetArea (r # g) - area_in s (r # g)"
    by (simp add: GetArea_def area_in_Cons)
  finally show ?case .
qed

lemma profile_Difference:
  assumes "box_valid s"
  shows "area_profile (Difference g [s]) = profile_minus s (area_profile g)"
  by (simp add: area_profile_def profile_minus_def Difference_def
      GetArea_minus_box [OF assms] area_in_minus_box [OF assms])


lemma not_meet_area:
  assumes "\<not> boxes_meet r s"
  shows "box_area (box_inter r (box_inter c s)) = 0" and "box_area (box_inter r s) = 0"
proof -
  obtain x0 y0 x1 y1 where r: "r = Box x0 y0 x1 y1" by (cases r)
  obtain a0 b0 a1 b1 where s: "s = Box a0 b0 a1 b1" by (cases s)
  obtain c0 d0 c1 d1 where c: "c = Box c0 d0 c1 d1" by (cases c)
  from assms consider (x) "min x1 a1 < max x0 a0" | (y) "min y1 b1 < max y0 b0"
    unfolding r s by auto
  then have "len (max x0 (max c0 a0)) (min x1 (min c1 a1))
               * len (max y0 (max d0 b0)) (min y1 (min d1 b1)) = 0
           \<and> len (max x0 a0) (min x1 a1) * len (max y0 b0) (min y1 b1) = 0"
  proof cases
    case x
    then have "len (max x0 (max c0 a0)) (min x1 (min c1 a1)) = 0"
      by (intro len_empty) (auto simp: min_le_iff_disj le_max_iff_disj min_less_iff_disj less_max_iff_disj)
    moreover from x have "len (max x0 a0) (min x1 a1) = 0"
      by (intro len_empty) simp
    ultimately show ?thesis by simp
  next
    case y
    then have "len (max y0 (max d0 b0)) (min y1 (min d1 b1)) = 0"
      by (intro len_empty) (auto simp: min_le_iff_disj le_max_iff_disj min_less_iff_disj less_max_iff_disj)
    moreover from y have "len (max y0 b0) (min y1 b1) = 0"
      by (intro len_empty) simp
    ultimately show ?thesis by simp
  qed
  then show "box_area (box_inter r (box_inter c s)) = 0" and "box_area (box_inter r s) = 0"
    unfolding r s c by (simp_all only: box_inter.simps box_area_len)
qed

lemma not_Intersects_area_in:
  assumes "\<not> Intersects g [s]"
  shows "area_in (box_inter c s) g = 0" and "area_in s g = 0"
proof -
  from assms have n: "\<forall>r \<in> set g. \<not> boxes_meet r s"
    by (simp add: Intersects_def list_ex_iff)
  then show "area_in (box_inter c s) g = 0"
    by (induction g) (simp_all add: area_in_Nil area_in_Cons not_meet_area)
  from n show "area_in s g = 0"
    by (induction g) (simp_all add: area_in_Nil area_in_Cons not_meet_area)
qed

lemma profile_subtract_neighbor:
  assumes "box_valid s"
  shows "area_profile (subtract_neighbor g [s]) = profile_minus s (area_profile g)"
proof (cases "Intersects g [s]")
  case True
  then show ?thesis by (simp add: subtract_neighbor_def profile_Difference [OF assms])
next
  case False
  then show ?thesis
    by (simp add: subtract_neighbor_def area_profile_def profile_minus_def not_Intersects_area_in)
qed

lemma profile_minus_commute:
  "profile_minus s \<circ> profile_minus t = profile_minus t \<circ> profile_minus s"
proof -
  have a: "box_inter s t = box_inter t s" by (rule box_inter_commute)
  have b: "box_inter (box_inter c s) t = box_inter (box_inter c t) s" for c
    by (simp only: box_inter_assoc box_inter_commute [of s t])
  show ?thesis
    by (rule ext) (simp add: profile_minus_def a b fun_eq_iff)
qed

lemma profile_subtract_neighbors:
  assumes "\<forall>s \<in> set ss. box_valid s"
  shows "area_profile (subtract_neighbors g (map (\<lambda>s. [s]) ss)) = fold profile_minus ss (area_profile g)"
  using assms unfolding subtract_neighbors_def
  by (induction ss arbitrary: g) (simp_all add: profile_subtract_neighbor)

lemma extent_geometry_box: "extent_geometry ext = [extent_box ext]"
  by (cases ext)
    (simp add: extent_geometry_def extent_box_def create_geometry_from_bbox_def ring_polygon_def
      Let_def min.assoc max.assoc min.commute max.commute min.left_commute max.left_commute)

lemma extent_box_valid: "box_valid (extent_box ext)"
  by (cases ext) (simp add: extent_box_def min_le_iff_disj)

lemma subtract_neighbors_area_permuted:
  assumes "mset es = mset es'"
  shows "GetArea (subtract_neighbors aoi_geometry (map extent_geometry es))
       = GetArea (subtract_neighbors aoi_geometry (map extent_geometry es'))"
proof -
  have m: "map extent_geometry xs = map (\<lambda>s. [s]) (map extent_box xs)" for xs
    by (simp add: extent_geometry_box)
  have v: "\<forall>s \<in> set (map extent_box xs). box_valid s" for xs
    by (simp add: extent_box_valid)
  have p: "area_profile (subtract_neighbors aoi_geometry (map extent_geometry xs))
             = fold profile_minus (map extent_box xs) (area_profile aoi_geometry)" for xs
    unfolding m by (rule profile_subtract_neighbors [OF v])
  have "mset (map extent_box es) = mset (map extent_box es')"
    using assms by simp
  then have "fold profile_minus (map extent_box es) = fold profile_minus (map extent_box es')"
    by (rule fold_multiset_equiv [rotated]) (rule profile_minus_commute)
  then have "area_profile (subtract_neighbors aoi_geometry (map extent_geometry es))
           = area_profile (subtract_neighbors aoi_geometry (map extent_geometry es'))"
    by (simp only: p)
  then show ?thesis by (simp add: area_profile_def)
qed

text \<open>The loop of lines 150 to 163 is this subtraction, over the extents it fetches.\<close>

lemma reconcile_step_fetch:
  "reconcile_step output_folder item_id grid_name (aoi, s3) =
     (case neighbor_extent output_folder item_id (objects s3) grid_name of
        Inl e \<Rightarrow> Inl e
      | Inr None \<Rightarrow> Inr (aoi, s3)
      | Inr (Some (ext, key)) \<Rightarrow>
          Inr (subtract_neighbor aoi (extent_geometry ext),
               s3\<lparr>get_object_calls := key # get_object_calls s3\<rparr>))"
  by (auto simp: reconcile_step_def neighbor_extent_def Let_def exist_s3_path_def get_object_def
      subtract_neighbor_def extent_geometry_def
      split: sum.splits option.splits prod.splits bool.splits)

lemma subtract_neighbors_Cons:
  "subtract_neighbors aoi (h # hs) = subtract_neighbors (subtract_neighbor aoi h) hs"
  by (simp add: subtract_neighbors_def)

lemma neighbor_extents_Cons:
  "neighbor_extents output_folder item_id objs (g # gs) =
     (case neighbor_extent output_folder item_id objs g of
        Inr (Some (ext, key)) \<Rightarrow> [ext]
      | _ \<Rightarrow> []) @ neighbor_extents output_folder item_id objs gs"
  by (simp add: neighbor_extents_def)

lemma reconcile_result:
  assumes "reconcile output_folder item_id grid_names (aoi, s3) = Inr (aoi', s3')"
  shows "list_all (neighbor_ok output_folder item_id (objects s3)) grid_names
       \<and> aoi' = subtract_neighbors aoi
            (map extent_geometry (neighbor_extents output_folder item_id (objects s3) grid_names))
       \<and> objects s3' = objects s3"
  using assms
proof (induction grid_names arbitrary: aoi s3)
  case Nil
  then show ?case by (simp add: neighbor_extents_def subtract_neighbors_def)
next
  case (Cons g gs)
  from Cons.prems obtain aoi1 s31 where
    s: "reconcile_step output_folder item_id g (aoi, s3) = Inr (aoi1, s31)"
    and r: "reconcile output_folder item_id gs (aoi1, s31) = Inr (aoi', s3')"
    by (auto split: sum.splits)
  from s have o: "objects s31 = objects s3"
    and k: "neighbor_ok output_folder item_id (objects s3) g"
    and a: "aoi1 = subtract_neighbors aoi (map extent_geometry
              (case neighbor_extent output_folder item_id (objects s3) g of
                 Inr (Some (ext, key)) \<Rightarrow> [ext] | _ \<Rightarrow> []))"
    unfolding reconcile_step_fetch
    by (auto simp: neighbor_ok_def subtract_neighbors_def split: sum.splits option.splits prod.splits)
  from Cons.IH [OF r] o k a show ?case
    by (simp add: neighbor_extents_Cons subtract_neighbors_def)
qed

lemma reconcile_succeeds:
  assumes "list_all (neighbor_ok output_folder item_id (objects s3)) grid_names"
  shows "\<exists>aoi' s3'. reconcile output_folder item_id grid_names (aoi, s3) = Inr (aoi', s3')"
  using assms
proof (induction grid_names arbitrary: aoi s3)
  case Nil
  then show ?case by simp
next
  case (Cons g gs)
  from Cons.prems have k: "neighbor_ok output_folder item_id (objects s3) g"
    and ks: "list_all (neighbor_ok output_folder item_id (objects s3)) gs" by simp_all
  from k obtain x where x: "neighbor_extent output_folder item_id (objects s3) g = Inr x"
    by (auto simp: neighbor_ok_def split: sum.splits)
  have "\<exists>aoi1 s31. reconcile_step output_folder item_id g (aoi, s3) = Inr (aoi1, s31)
                     \<and> objects s31 = objects s3"
    unfolding reconcile_step_fetch x by (cases x) (auto split: prod.splits)
  then obtain aoi1 s31 where
    s: "reconcile_step output_folder item_id g (aoi, s3) = Inr (aoi1, s31)"
    and o: "objects s31 = objects s3"
    by blast
  from ks o have "list_all (neighbor_ok output_folder item_id (objects s31)) gs" by simp
  from Cons.IH [OF this, of aoi1] s show ?case by simp
qed

lemma neighbor_extents_permuted:
  assumes "mset gs = mset gs'"
  shows "mset (neighbor_extents output_folder item_id objs gs)
       = mset (neighbor_extents output_folder item_id objs gs')"
proof -
  have "mset (concat (map f xs)) = (\<Sum>x \<in># mset xs. mset (f x))" for f :: "string \<Rightarrow> (rat \<times> rat \<times> rat \<times> rat) list" and xs
    by (induction xs) simp_all
  then show ?thesis using assms by (simp add: neighbor_extents_def)
qed

lemma reconcile_area_order_independent:
  assumes p: "mset grid_names = mset grid_names'"
    and r: "reconcile output_folder item_id grid_names (aoi, s3) = Inr (aoi1, s31)"
  shows "\<exists>aoi2 s32. reconcile output_folder item_id grid_names' (aoi, s3) = Inr (aoi2, s32)
                   \<and> GetArea aoi2 = GetArea aoi1"
proof -
  from reconcile_result [OF r] have
    ok: "list_all (neighbor_ok output_folder item_id (objects s3)) grid_names"
    and a1: "aoi1 = subtract_neighbors aoi
               (map extent_geometry (neighbor_extents output_folder item_id (objects s3) grid_names))"
    by simp_all
  from p have "set grid_names = set grid_names'" by (rule mset_eq_setD)
  with ok have "list_all (neighbor_ok output_folder item_id (objects s3)) grid_names'"
    by (simp add: list_all_iff)
  from reconcile_succeeds [OF this, of aoi] obtain aoi2 s32 where
    r2: "reconcile output_folder item_id grid_names' (aoi, s3) = Inr (aoi2, s32)" by blast
  from reconcile_result [OF r2] have
    a2: "aoi2 = subtract_neighbors aoi
               (map extent_geometry (neighbor_extents output_folder item_id (objects s3) grid_names'))"
    by simp
  have "GetArea aoi2 = GetArea aoi1"
    unfolding a1 a2
    by (rule subtract_neighbors_area_permuted) (rule neighbor_extents_permuted [OF p [symmetric]])
  with r2 show ?thesis by blast
qed

text \<open>
  C7. For any candidate AOI and any list of neighbour extents (each the bounding-box
  polygon that \<^verbatim>\<open>create_geometry_from_bbox\<close> builds from the four stored numbers), the
  guarded \<^verbatim>\<open>Difference\<close> steps of line 163 applied in any two orders of the same extents leave
  residual AOIs of one and the same total area; and where the loop of lines 150 to 163
  succeeds for a list of grid names, it succeeds for every permutation of the list and
  leaves a residual AOI of the same total area. Coordinates are exact rationals, so the
  areas are equal and no tolerance is needed.
\<close>

theorem residual_area_order_independent:
  assumes "mset es = mset es'" and "mset grid_names = mset grid_names'"
  shows "GetArea (subtract_neighbors aoi_geometry (map extent_geometry es))
           = GetArea (subtract_neighbors aoi_geometry (map extent_geometry es'))
       \<and> (\<forall>aoi1 s31.
             reconcile output_folder item_id grid_names (aoi_geometry, s3) = Inr (aoi1, s31) \<longrightarrow>
             (\<exists>aoi2 s32.
                reconcile output_folder item_id grid_names' (aoi_geometry, s3) = Inr (aoi2, s32)
                \<and> GetArea aoi2 = GetArea aoi1))"
  using assms subtract_neighbors_area_permuted reconcile_area_order_independent by blast

text \<open>
  The theorem at a square of side 4 with a neighbour inside it and one over its upper
  half, in both orders (6 square units stay), and at the example invocation with the grid
  names in both orders.
\<close>

theorem residual_area_order_independent_witness:
  "GetArea (subtract_neighbors [Box 0 0 4 4] (map extent_geometry [(1, 1, 3, 3), (0, 2, 4, 4)]))
     = GetArea (subtract_neighbors [Box 0 0 4 4] (map extent_geometry [(0, 2, 4, 4), (1, 1, 3, 3)]))
   \<and> GetArea (subtract_neighbors [Box 0 0 4 4] (map extent_geometry [(0, 2, 4, 4), (1, 1, 3, 3)])) = 6
   \<and> (\<exists>aoi2 s32.
         reconcile (OUTPUT_S3_FOLDER example_env) (msg_id example_message) [''30TXM'', ''30TWM'']
             ([Box 12 10 14 14], half_neighbour_s3) = Inr (aoi2, s32)
         \<and> GetArea aoi2 = GetArea [Box 12 10 13 14])"
proof -
  have m: "mset [(1, 1, 3, 3), (0, 2, 4, 4)] = mset [(0, 2, 4, 4), (1, 1, 3, 3 :: rat) :: extent]"
    by simp
  have n: "mset [''30TWM'', ''30TXM''] = mset [''30TXM'', ''30TWM'']"
    by simp
  have v: "GetArea (subtract_neighbors [Box 0 0 4 4]
             (map extent_geometry [(0, 2, 4, 4), (1, 1, 3, 3)])) = 6"
    by code_simp
  from residual_area_order_independent [OF m n, of "[Box 0 0 4 4]"
      "OUTPUT_S3_FOLDER example_env" "msg_id example_message" half_neighbour_s3]
  have a: "GetArea (subtract_neighbors [Box 0 0 4 4] (map extent_geometry [(1, 1, 3, 3), (0, 2, 4, 4)]))
     = GetArea (subtract_neighbors [Box 0 0 4 4] (map extent_geometry [(0, 2, 4, 4), (1, 1, 3, 3)]))"
    by blast
  from residual_area_order_independent [OF m n, of "[Box 12 10 14 14]"
      "OUTPUT_S3_FOLDER example_env" "msg_id example_message" half_neighbour_s3]
    example_reconcile_half
  have b: "\<exists>aoi2 s32.
         reconcile (OUTPUT_S3_FOLDER example_env) (msg_id example_message) [''30TXM'', ''30TWM'']
             ([Box 12 10 14 14], half_neighbour_s3) = Inr (aoi2, s32)
         \<and> GetArea aoi2 = GetArea [Box 12 10 13 14]"
    by blast
  from a v b show ?thesis by blast
qed

subsection \<open>The parts of the residual AOI lie apart\<close>

text \<open>
  The strips that \<^const>\<open>box_minus\<close> returns share boundary at most, and so do the parts of
  everything the loop builds from the candidate AOI: \<^const>\<open>GetArea\<close> of a residual AOI
  counts no region twice.
\<close>

lemma boxes_overlap_iff:
  "boxes_overlap (Box x0 y0 x1 y1) (Box a0 b0 a1 b1)
     \<longleftrightarrow> (x0 < x1 \<and> x0 < a1 \<and> a0 < x1 \<and> a0 < a1) \<and> (y0 < y1 \<and> y0 < b1 \<and> b0 < y1 \<and> b0 < b1)"
proof -
  have "0 < max 0 (min x1 a1 - max x0 a0) * max 0 (min y1 b1 - max y0 b0)
          \<longleftrightarrow> max x0 a0 < min x1 a1 \<and> max y0 b0 < min y1 b1"
    by (auto simp: zero_less_mult_iff max_def)
  then show ?thesis by (auto simp: boxes_overlap_def)
qed

lemma overlap_within:
  assumes "box_within p r" and "box_within q r'" and "\<not> boxes_overlap r r'"
  shows "\<not> boxes_overlap p q"
proof (cases p; cases q; cases r; cases r')
  fix p0 p1 p2 p3 q0 q1 q2 q3 r0 r1 r2 r3 s0 s1 s2 s3
  assume e: "p = Box p0 p1 p2 p3" "q = Box q0 q1 q2 q3" "r = Box r0 r1 r2 r3" "r' = Box s0 s1 s2 s3"
  from assms show ?thesis unfolding e boxes_overlap_iff by simp linarith
qed

lemma box_minus_apart: "parts_apart (box_minus r s)"
proof (cases r; cases s)
  fix x0 y0 x1 y1 a0 b0 a1 b1
  assume e: "r = Box x0 y0 x1 y1" "s = Box a0 b0 a1 b1"
  show ?thesis
    unfolding e parts_apart_def
    by (simp add: boxes_overlap_iff sorted_wrt_append)
qed


lemma minus_box_apart:
  assumes "parts_apart g"
  shows "parts_apart (concat (map (\<lambda>r. box_minus r s) g))"
  using assms
proof (induction g)
  case Nil
  then show ?case by (simp add: parts_apart_def)
next
  case (Cons r g)
  from Cons.prems have rest: "parts_apart g"
    and head: "\<forall>r' \<in> set g. \<not> boxes_overlap r r'"
    by (simp_all add: parts_apart_def)
  have cross: "\<not> boxes_overlap p q"
    if p: "p \<in> set (box_minus r s)" and q: "q \<in> set (concat (map (\<lambda>r. box_minus r s) g))"
    for p q
  proof -
    from q obtain r' where r': "r' \<in> set g" and q': "q \<in> set (box_minus r' s)" by auto
    from p have "box_within p r" by (rule box_minus_within)
    moreover from q' have "box_within q r'" by (rule box_minus_within)
    moreover from head r' have "\<not> boxes_overlap r r'" by simp
    ultimately show ?thesis by (rule overlap_within)
  qed
  from box_minus_apart [of r s] Cons.IH [OF rest] cross
  show ?case unfolding parts_apart_def by (simp add: sorted_wrt_append)
qed

lemma Difference_apart:
  assumes "parts_apart g"
  shows "parts_apart (Difference g h)"
  using assms unfolding Difference_def
proof (induction h arbitrary: g)
  case Nil
  then show ?case by simp
next
  case (Cons s h)
  from Cons.IH [OF minus_box_apart [OF Cons.prems]] show ?case by simp
qed

lemma subtract_neighbors_apart:
  assumes "parts_apart g"
  shows "parts_apart (subtract_neighbors g hs)"
  using assms unfolding subtract_neighbors_def
proof (induction hs arbitrary: g)
  case Nil
  then show ?case by simp
next
  case (Cons h hs)
  from Cons.prems have "parts_apart (subtract_neighbor g h)"
    by (simp add: subtract_neighbor_def Difference_apart)
  from Cons.IH [OF this] show ?case by simp
qed

lemma candidate_apart:
  "parts_apart (Intersection (extent_geometry e1) (extent_geometry e2))"
  by (simp add: extent_geometry_box Intersection_def parts_apart_def)

lemma residual_parts_apart:
  assumes "residual_aoi env s3 item_id cm_dataset lu_dataset = Inr (aoi_geometry, s3')"
  shows "parts_apart aoi_geometry"
proof -
  from assms reconcile_result obtain es where
    "aoi_geometry = subtract_neighbors
        (Intersection (extent_geometry (get_envelope cm_dataset))
                      (extent_geometry (get_envelope lu_dataset)))
        (map extent_geometry es)"
    unfolding residual_aoi_def Let_def by blast
  with subtract_neighbors_apart [OF candidate_apart] show ?thesis by simp
qed

subsection \<open>The reading windows of the clamped extent\<close>

lemma py_round_lower: "\<lfloor>x\<rfloor> \<le> py_round x"
  by (simp add: py_round_def Let_def)

lemma py_round_upper: "py_round x \<le> \<lfloor>x\<rfloor> + 1"
  by (simp add: py_round_def Let_def)

lemma round_fraction_mono:
  fixes d e :: rat and f :: int
  assumes "d \<le> e"
  shows "(if d < 1 / 2 then f else if 1 / 2 < d then f + 1 else if even f then f else f + 1)
       \<le> (if e < 1 / 2 then f else if 1 / 2 < e then f + 1 else if even f then f else f + 1)"
  using assms by auto

lemma py_round_mono:
  assumes "x \<le> y"
  shows "py_round x \<le> py_round y"
proof (cases "\<lfloor>x\<rfloor> = \<lfloor>y\<rfloor>")
  case True
  have d: "x - of_int \<lfloor>y\<rfloor> \<le> y - of_int \<lfloor>y\<rfloor>" using assms by simp
  have px: "py_round x = (if x - of_int \<lfloor>y\<rfloor> < 1 / 2 then \<lfloor>y\<rfloor>
                          else if 1 / 2 < x - of_int \<lfloor>y\<rfloor> then \<lfloor>y\<rfloor> + 1
                          else if even \<lfloor>y\<rfloor> then \<lfloor>y\<rfloor> else \<lfloor>y\<rfloor> + 1)"
    unfolding py_round_def Let_def True ..
  have py: "py_round y = (if y - of_int \<lfloor>y\<rfloor> < 1 / 2 then \<lfloor>y\<rfloor>
                          else if 1 / 2 < y - of_int \<lfloor>y\<rfloor> then \<lfloor>y\<rfloor> + 1
                          else if even \<lfloor>y\<rfloor> then \<lfloor>y\<rfloor> else \<lfloor>y\<rfloor> + 1)"
    unfolding py_round_def Let_def ..
  show ?thesis unfolding px py by (rule round_fraction_mono [OF d])
next
  case False
  from assms have "\<lfloor>x\<rfloor> \<le> \<lfloor>y\<rfloor>" by (rule floor_mono)
  with False have "\<lfloor>x\<rfloor> + 1 \<le> \<lfloor>y\<rfloor>" by simp
  with py_round_upper [of x] have "py_round x \<le> \<lfloor>y\<rfloor>" by (rule order_trans)
  then show ?thesis using py_round_lower [of y] by (rule order_trans)
qed

lemma fold_min_le: "fold min xs (a::rat) \<le> a"
proof (induction xs arbitrary: a)
  case Nil
  then show ?case by simp
next
  case (Cons x xs)
  have "fold min xs (min x a) \<le> min x a" by (rule Cons.IH)
  also have "\<dots> \<le> a" by simp
  finally show ?case by simp
qed

lemma fold_min_ge: "\<forall>x \<in> set xs. l \<le> x \<Longrightarrow> l \<le> a \<Longrightarrow> l \<le> fold min xs (a::rat)"
  by (induction xs arbitrary: a) simp_all

lemma fold_max_ge: "a \<le> fold max xs (a::rat)"
proof (induction xs arbitrary: a)
  case Nil
  then show ?case by simp
next
  case (Cons x xs)
  have "a \<le> max x a" by simp
  also have "\<dots> \<le> fold max xs (max x a)" by (rule Cons.IH)
  finally show ?case by simp
qed

lemma fold_max_le: "\<forall>x \<in> set xs. x \<le> u \<Longrightarrow> a \<le> u \<Longrightarrow> fold max xs (a::rat) \<le> u"
  by (induction xs arbitrary: a) simp_all

text \<open>The envelope of a non-empty geometry whose parts are non-empty boxes within a box.\<close>

lemma GetEnvelope_within:
  assumes ne: "g \<noteq> []"
    and v: "\<forall>r \<in> set g. box_valid r \<and> box_within r (Box w0 v0 w1 v1)"
    and e: "GetEnvelope g = (mx0, mx1, my0, my1)"
  shows "w0 \<le> mx0 \<and> mx0 \<le> mx1 \<and> mx1 \<le> w1 \<and> v0 \<le> my0 \<and> my0 \<le> my1 \<and> my1 \<le> v1"
proof -
  from ne obtain r rs where g: "g = r # rs" by (cases g) auto
  obtain x0 y0 x1 y1 where r: "r = Box x0 y0 x1 y1" by (cases r)
  from v g r have r0: "x0 \<le> x1" "y0 \<le> y1" "w0 \<le> x0" "x1 \<le> w1" "v0 \<le> y0" "y1 \<le> v1"
    by simp_all
  have b: "w0 \<le> box_x0 s \<and> box_x1 s \<le> w1 \<and> v0 \<le> box_y0 s \<and> box_y1 s \<le> v1
           \<and> box_x0 s \<le> box_x1 s \<and> box_y0 s \<le> box_y1 s" if "s \<in> set rs" for s
    using v that unfolding g by (cases s) auto
  from e have m: "mx0 = fold min (map box_x0 rs) x0" "mx1 = fold max (map box_x1 rs) x1"
    "my0 = fold min (map box_y0 rs) y0" "my1 = fold max (map box_y1 rs) y1"
    unfolding g r by (simp_all add: GetEnvelope_def)
  have "w0 \<le> mx0" unfolding m using b r0 by (intro fold_min_ge) auto
  moreover have "mx0 \<le> x0" unfolding m by (rule fold_min_le)
  moreover have "x1 \<le> mx1" unfolding m by (rule fold_max_ge)
  moreover have "mx1 \<le> w1" unfolding m using b r0 by (intro fold_max_le) auto
  moreover have "v0 \<le> my0" unfolding m using b r0 by (intro fold_min_ge) auto
  moreover have "my0 \<le> y0" unfolding m by (rule fold_min_le)
  moreover have "y1 \<le> my1" unfolding m by (rule fold_max_ge)
  moreover have "my1 \<le> v1" unfolding m using b r0 by (intro fold_max_le) auto
  ultimately show ?thesis using r0 by linarith
qed


lemma scaled_position:
  fixes x0 x1 u v :: rat
  assumes "x0 < x1" and "0 < n" and "x0 \<le> u" and "u \<le> v" and "v \<le> x1"
  shows "0 \<le> (u - x0) / (\<bar>x0 - x1\<bar> / of_nat n)"
    and "(u - x0) / (\<bar>x0 - x1\<bar> / of_nat n) \<le> (v - x0) / (\<bar>x0 - x1\<bar> / of_nat n)"
    and "(v - x0) / (\<bar>x0 - x1\<bar> / of_nat n) \<le> of_nat n"
proof -
  let ?r = "\<bar>x0 - x1\<bar> / of_nat n"
  have r: "0 < ?r" using assms by simp
  show "0 \<le> (u - x0) / ?r" using assms r by simp
  show "(u - x0) / ?r \<le> (v - x0) / ?r" using assms r by (simp add: divide_right_mono)
  have "(v - x0) / ?r \<le> (x1 - x0) / ?r"
  proof (rule divide_right_mono)
    show "v - x0 \<le> x1 - x0" using assms by simp
    show "0 \<le> ?r" using r by (rule less_imp_le)
  qed
  also have "(x1 - x0) / ?r = of_nat n" by (rule full_span_quotient [OF assms(1,2)])
  finally show "(v - x0) / ?r \<le> of_nat n" .
qed

lemma scaled_depth:
  fixes y0 y1 u v :: rat
  assumes "y0 < y1" and "0 < n" and "y0 \<le> u" and "u \<le> v" and "v \<le> y1"
  shows "0 \<le> (y1 - v) / (\<bar>y1 - y0\<bar> / of_nat n)"
    and "(y1 - v) / (\<bar>y1 - y0\<bar> / of_nat n) \<le> (y1 - u) / (\<bar>y1 - y0\<bar> / of_nat n)"
    and "(y1 - u) / (\<bar>y1 - y0\<bar> / of_nat n) \<le> of_nat n"
proof -
  let ?r = "\<bar>y1 - y0\<bar> / of_nat n"
  have r: "0 < ?r" using assms by simp
  show "0 \<le> (y1 - v) / ?r" using assms r by simp
  show "(y1 - v) / ?r \<le> (y1 - u) / ?r" using assms r by (simp add: divide_right_mono)
  have "(y1 - u) / ?r \<le> (y1 - y0) / ?r"
  proof (rule divide_right_mono)
    show "y1 - u \<le> y1 - y0" using assms by simp
    show "0 \<le> ?r" using r by (rule less_imp_le)
  qed
  also have "(y1 - y0) / ?r = of_nat n" by (rule full_span_quotient [OF assms(1,2)])
  finally show "(y1 - u) / ?r \<le> of_nat n" .
qed

text \<open>A bounding box inside the envelope of a dataset is read through a window inside its grid.\<close>

lemma window_in_bounds:
  assumes env: "get_envelope ds = (x0, y0, x1, y1)"
    and x: "x0 \<le> a0" "a0 \<le> a2" "a2 \<le> x1"
    and y: "y0 \<le> a1" "a1 \<le> a3" "a3 \<le> y1"
    and win: "get_reading_window ds (a0, a1, a2, a3) = Inr (left, upper, right, lower)"
  shows "0 \<le> left \<and> left \<le> right \<and> right \<le> int (RasterXSize ds)
       \<and> 0 \<le> upper \<and> upper \<le> lower \<and> lower \<le> int (RasterYSize ds)"
proof -
  from win have w: "0 < RasterXSize ds" and h: "0 < RasterYSize ds"
    and nx: "x0 \<noteq> x1" and ny: "y0 \<noteq> y1"
    by (auto simp: get_reading_window_def env Let_def split: if_splits)
  from nx x have lx: "x0 < x1" by linarith
  from ny y have ly: "y0 < y1" by linarith
  from win get_reading_window_formula [OF env w h nx ny, of a0 a1 a2 a3]
  have l: "left = py_round ((a0 - x0) / (\<bar>x0 - x1\<bar> / of_nat (RasterXSize ds)))"
    and u: "upper = py_round ((y1 - a3) / (\<bar>y1 - y0\<bar> / of_nat (RasterYSize ds)))"
    and r: "right = py_round ((a2 - x0) / (\<bar>x0 - x1\<bar> / of_nat (RasterXSize ds)))"
    and b: "lower = py_round ((y1 - a1) / (\<bar>y1 - y0\<bar> / of_nat (RasterYSize ds)))"
    by simp_all
  have "0 \<le> left"
    unfolding l using py_round_mono [OF scaled_position(1) [OF lx w x]] by (simp add: py_round_zero)
  moreover have "left \<le> right"
    unfolding l r by (rule py_round_mono [OF scaled_position(2) [OF lx w x]])
  moreover have "right \<le> int (RasterXSize ds)"
    unfolding r using py_round_mono [OF scaled_position(3) [OF lx w x]]
    by (simp only: py_round_of_nat)
  moreover have "0 \<le> upper"
    unfolding u using py_round_mono [OF scaled_depth(1) [OF ly h y]] by (simp add: py_round_zero)
  moreover have "upper \<le> lower"
    unfolding u b by (rule py_round_mono [OF scaled_depth(2) [OF ly h y]])
  moreover have "lower \<le> int (RasterYSize ds)"
    unfolding b using py_round_mono [OF scaled_depth(3) [OF ly h y]]
    by (simp only: py_round_of_nat)
  ultimately show ?thesis by blast
qed


lemma box_minus_valid:
  assumes "r' \<in> set (box_minus r s)"
  shows "box_valid r'"
proof (cases r; cases s)
  fix x0 y0 x1 y1 a0 b0 a1 b1
  assume r: "r = Box x0 y0 x1 y1" and s: "s = Box a0 b0 a1 b1"
  from assms show ?thesis
    unfolding r s by (auto split: if_splits)
qed

lemma box_within_trans: "box_within a b \<Longrightarrow> box_within b c \<Longrightarrow> box_within a c"
  by (cases a; cases b; cases c) auto

lemma minus_box_parts:
  assumes "\<forall>r \<in> set g. box_valid r \<and> box_within r W"
  shows "\<forall>r \<in> set (concat (map (\<lambda>r. box_minus r s) g)). box_valid r \<and> box_within r W"
proof
  fix r' assume "r' \<in> set (concat (map (\<lambda>r. box_minus r s) g))"
  then obtain r where r: "r \<in> set g" and p: "r' \<in> set (box_minus r s)" by auto
  from p have "box_valid r'" by (rule box_minus_valid)
  moreover from p have "box_within r' r" by (rule box_minus_within)
  with r assms have "box_within r' W" by (blast intro: box_within_trans)
  ultimately show "box_valid r' \<and> box_within r' W" by simp
qed

lemma Difference_parts:
  assumes "\<forall>r \<in> set g. box_valid r \<and> box_within r W"
  shows "\<forall>r \<in> set (Difference g h). box_valid r \<and> box_within r W"
  using assms unfolding Difference_def
proof (induction h arbitrary: g)
  case Nil
  then show ?case by simp
next
  case (Cons s h)
  from minus_box_parts [OF Cons.prems]
  have "\<forall>r \<in> set (concat (map (\<lambda>r. box_minus r s) g)). box_valid r \<and> box_within r W" .
  from Cons.IH [OF this] show ?case by simp
qed

lemma subtract_neighbors_parts:
  assumes "\<forall>r \<in> set g. box_valid r \<and> box_within r W"
  shows "\<forall>r \<in> set (subtract_neighbors g hs). box_valid r \<and> box_within r W"
  using assms unfolding subtract_neighbors_def
proof (induction hs arbitrary: g)
  case Nil
  then show ?case by simp
next
  case (Cons h hs)
  have "\<forall>r \<in> set (subtract_neighbor g h). box_valid r \<and> box_within r W"
  proof (cases "Intersects g h")
    case True
    then have e: "subtract_neighbor g h = Difference g h" by (simp add: subtract_neighbor_def)
    show ?thesis unfolding e by (rule Difference_parts [OF Cons.prems])
  next
    case False
    then have e: "subtract_neighbor g h = g" by (simp add: subtract_neighbor_def)
    show ?thesis unfolding e by (rule Cons.prems)
  qed
  from Cons.IH [OF this] show ?case by simp
qed

lemma box_within_refl: "box_within r r"
  by (cases r) simp

lemma boxes_meet_valid: "boxes_meet r s \<Longrightarrow> box_valid (box_inter r s)"
  by (cases r; cases s) simp

lemma candidate_parts:
  "\<forall>r \<in> set (Intersection (extent_geometry e1) (extent_geometry e2)).
     box_valid r \<and> box_within r (box_inter (extent_box e1) (extent_box e2))"
proof (cases "boxes_meet (extent_box e1) (extent_box e2)")
  case True
  then have "Intersection (extent_geometry e1) (extent_geometry e2)
               = [box_inter (extent_box e1) (extent_box e2)]"
    by (simp add: extent_geometry_box Intersection_def)
  then show ?thesis by (simp add: boxes_meet_valid [OF True] box_within_refl)
next
  case False
  then have "Intersection (extent_geometry e1) (extent_geometry e2) = []"
    by (simp add: extent_geometry_box Intersection_def)
  then show ?thesis by simp
qed

lemma residual_parts:
  assumes "residual_aoi env s3 item_id cm_dataset lu_dataset = Inr (aoi_geometry, s3')"
  shows "\<forall>r \<in> set aoi_geometry. box_valid r
           \<and> box_within r (box_inter (extent_box (get_envelope cm_dataset))
                                     (extent_box (get_envelope lu_dataset)))"
proof -
  from assms reconcile_result obtain es where
    "aoi_geometry = subtract_neighbors
        (Intersection (extent_geometry (get_envelope cm_dataset))
                      (extent_geometry (get_envelope lu_dataset)))
        (map extent_geometry es)"
    unfolding residual_aoi_def Let_def by blast
  with subtract_neighbors_parts [OF candidate_parts] show ?thesis by simp
qed

lemma extent_box_normalized: "x0 \<le> x1 \<Longrightarrow> y0 \<le> y1 \<Longrightarrow> extent_box (x0, y0, x1, y1) = Box x0 y0 x1 y1"
  by (simp add: extent_box_def)

text \<open>
  Where the residual AOI is not empty, the window that \<^verbatim>\<open>get_reading_window\<close> computes from
  the clamped extent lies inside the grid, on the cloud mask and on the land-use raster.
\<close>

lemma nonempty_residual_window_in_raster:
  assumes res: "residual_aoi env s3 item_id cm_dataset lu_dataset = Inr (aoi_geometry, s3')"
    and ne: "aoi_geometry \<noteq> []"
    and ds: "ds = cm_dataset \<or> ds = lu_dataset"
    and win: "get_reading_window ds (clamp_aoi_extent aoi_geometry (get_envelope lu_dataset))
                = Inr (left, upper, right, lower)"
  shows "0 \<le> left \<and> left \<le> right \<and> right \<le> int (RasterXSize ds)
       \<and> 0 \<le> upper \<and> upper \<le> lower \<and> lower \<le> int (RasterYSize ds)"
proof -
  obtain c0 c1 c2 c3 where cm: "get_envelope cm_dataset = (c0, c1, c2, c3)"
    by (cases "get_envelope cm_dataset")
  obtain l0 l1 l2 l3 where lu: "get_envelope lu_dataset = (l0, l1, l2, l3)"
    by (cases "get_envelope lu_dataset")
  from envelope_normalized [of cm_dataset] cm have cn: "c0 \<le> c2" "c1 \<le> c3" by simp_all
  from envelope_normalized [of lu_dataset] lu have ln: "l0 \<le> l2" "l1 \<le> l3" by simp_all
  obtain mx0 mx1 my0 my1 where e: "GetEnvelope aoi_geometry = (mx0, mx1, my0, my1)"
    by (cases "GetEnvelope aoi_geometry")
  have "\<forall>r \<in> set aoi_geometry. box_valid r
          \<and> box_within r (Box (max c0 l0) (max c1 l1) (min c2 l2) (min c3 l3))"
    using residual_parts [OF res] unfolding cm lu
    by (simp add: extent_box_normalized cn ln)
  from GetEnvelope_within [OF ne this e]
  have m: "max c0 l0 \<le> mx0" "mx0 \<le> mx1" "mx1 \<le> min c2 l2"
    "max c1 l1 \<le> my0" "my0 \<le> my1" "my1 \<le> min c3 l3"
    by simp_all
  have clamp: "clamp_aoi_extent aoi_geometry (get_envelope lu_dataset)
                 = (max mx0 l0, max my0 l1, min mx1 l2, min my1 l3)"
    by (simp add: clamp_aoi_extent_def e lu Let_def)
  obtain x0 y0 x1 y1 where env: "get_envelope ds = (x0, y0, x1, y1)"
    by (cases "get_envelope ds")
  from m have p: "c0 \<le> mx0" "l0 \<le> mx0" "mx1 \<le> c2" "mx1 \<le> l2"
    "c1 \<le> my0" "l1 \<le> my0" "my1 \<le> c3" "my1 \<le> l3"
    by simp_all
  have cl: "max mx0 l0 = mx0" "max my0 l1 = my0" "min mx1 l2 = mx1" "min my1 l3 = my1"
    using p by (simp_all add: max_absorb1 min_absorb1)
  from ds cm lu env have "(x0 = c0 \<and> y0 = c1 \<and> x1 = c2 \<and> y1 = c3)
      \<or> (x0 = l0 \<and> y0 = l1 \<and> x1 = l2 \<and> y1 = l3)"
    by auto
  with p m(2,5) have x: "x0 \<le> max mx0 l0" "max mx0 l0 \<le> min mx1 l2" "min mx1 l2 \<le> x1"
    and y: "y0 \<le> max my0 l1" "max my0 l1 \<le> min my1 l3" "min my1 l3 \<le> y1"
    unfolding cl by blast+
  from win have "get_reading_window ds (max mx0 l0, max my0 l1, min mx1 l2, min my1 l3)
                   = Inr (left, upper, right, lower)"
    unfolding clamp .
  from window_in_bounds [OF env x y this] show ?thesis .
qed


text \<open>
  C9. Where the stored extent of a neighbour covers the candidate AOI, the residual AOI is
  empty, its envelope is four zeros, the clamp of lines 166 to 169 gives an extent with
  \<open>max < min\<close>, and the windows on both rasters leave the grid (\<open>right < 0\<close>,
  \<open>bottom < top\<close>, \<open>top > height\<close>): the read raises.
\<close>

theorem empty_residual_window_out_of_raster:
  "residual_aoi example_env neighbour_s3 (msg_id example_message) example_cm_dataset example_lu_dataset
     = Inr ([], neighbour_s3\<lparr>get_object_calls := [(''bucket'', ''out/S2A_30TXM_20210101_0_L2A.json'')]\<rparr>)
   \<and> clamp_aoi_extent [] (get_envelope example_lu_dataset) = (12, 10, 0, 0)
   \<and> get_reading_window example_cm_dataset (12, 10, 0, 0) = Inr (2, 14, - 10, 4)
   \<and> get_reading_window example_lu_dataset (12, 10, 0, 0) = Inr (0, 14, - 12, 4)
   \<and> lambda_handler example_env inside_services neighbour_s3 example_message = Inl ValueError"
proof -
  have c: "clamp_aoi_extent [] (get_envelope example_lu_dataset) = (12, 10, 0, 0)"
    by (simp add: example_candidate example_clamp)
  have w: "get_reading_window example_cm_dataset (12, 10, 0, 0) = Inr (2, 14, - 10, 4)"
    "get_reading_window example_lu_dataset (12, 10, 0, 0) = Inr (0, 14, - 12, 4)"
    by code_simp+
  have p: "process_aoi example_env inside_services example_message example_cm_dataset example_lu_dataset
             ([], neighbour_s3\<lparr>get_object_calls := [(''bucket'', ''out/S2A_30TXM_20210101_0_L2A.json'')]\<rparr>)
           = Inl ValueError"
    by (simp add: process_aoi_def example_candidate example_clamp example_statistics Let_def)
  have h: "lambda_handler example_env inside_services neighbour_s3 example_message = Inl ValueError"
    by (simp add: lambda_handler_def example_open_inside example_candidate
        example_residual_neighbour p Let_def)
  from example_residual_neighbour c w h show ?thesis by blast
qed
end
